theory Spec2Isabelle
  imports Main "HOL-Library.AList"
begin

section \<open>Python values used by \<^verbatim>\<open>app.py\<close>\<close>

text \<open>
  The change-detection engine of \<^verbatim>\<open>src/app/bin/app.py\<close> is pure string processing.
  Strings are modelled as \<^typ>\<open>string\<close>; a character is an 8-bit code point (the
  docstring of \<^verbatim>\<open>strip_comments\<close> says the DDL is ASCII text). Every exception the
  source can raise is a value of \<open>py_error\<close>, and a function that can raise returns
  \<open>py_error + 'a\<close> with \<open>Inl\<close> for the exception.
\<close>

datatype py_error =
    IndexError
  | ValueError
  | UnboundLocalError
  | AttributeError
  | PyException string

abbreviation (input) SQ :: char where "SQ \<equiv> CHR 0x27"
abbreviation (input) DQ :: char where "DQ \<equiv> CHR 0x22"
abbreviation (input) BSL :: char where "BSL \<equiv> CHR 0x5C"
abbreviation (input) LF :: char where "LF \<equiv> CHR 0x0A"
abbreviation (input) CR :: char where "CR \<equiv> CHR 0x0D"
abbreviation (input) TAB :: char where "TAB \<equiv> CHR 0x09"
abbreviation (input) LPAR :: char where "LPAR \<equiv> CHR 0x28"
abbreviation (input) RPAR :: char where "RPAR \<equiv> CHR 0x29"

subsection \<open>String methods\<close>

text \<open>\<^verbatim>\<open>str.isspace\<close> on a code point below 256, which is what \<^verbatim>\<open>str.strip()\<close> and the
  regular expression class \<^verbatim>\<open>\s\<close> remove.\<close>

definition is_space :: "char \<Rightarrow> bool" where
  "is_space c = (let n = (of_char c :: nat) in
     (9 \<le> n \<and> n \<le> 13) \<or> (28 \<le> n \<and> n \<le> 32) \<or> n = 133 \<or> n = 160)"

text \<open>\<^verbatim>\<open>s.strip()\<close>, \<^verbatim>\<open>s.strip(chars)\<close> and \<^verbatim>\<open>s.rstrip(chars)\<close>.\<close>

definition strip_by :: "(char \<Rightarrow> bool) \<Rightarrow> string \<Rightarrow> string" where
  "strip_by P s = rev (dropWhile P (rev (dropWhile P s)))"

definition rstrip_by :: "(char \<Rightarrow> bool) \<Rightarrow> string \<Rightarrow> string" where
  "rstrip_by P s = rev (dropWhile P (rev s))"

definition strip :: "string \<Rightarrow> string" where
  "strip s = strip_by is_space s"

definition strip_chars :: "string \<Rightarrow> string \<Rightarrow> string" where
  "strip_chars cs s = strip_by (\<lambda>c. c \<in> set cs) s"

definition rstrip_chars :: "string \<Rightarrow> string \<Rightarrow> string" where
  "rstrip_chars cs s = rstrip_by (\<lambda>c. c \<in> set cs) s"

text \<open>\<^verbatim>\<open>s.startswith(p)\<close>.\<close>

fun startswith :: "string \<Rightarrow> string \<Rightarrow> bool" where
  "startswith s [] = True"
| "startswith [] (p # ps) = False"
| "startswith (c # cs) (p # ps) = (c = p \<and> startswith cs ps)"

text \<open>\<^verbatim>\<open>s.find(sub)\<close>: the lowest offset at which \<open>sub\<close> occurs, or \<open>-1\<close>.\<close>

fun py_find :: "string \<Rightarrow> string \<Rightarrow> int" where
  "py_find [] sub = (if sub = [] then 0 else -1)"
| "py_find (c # cs) sub =
     (if startswith (c # cs) sub then 0
      else (let r = py_find cs sub in if r < 0 then -1 else r + 1))"

text \<open>\<^verbatim>\<open>sub in s\<close>.\<close>

definition contains :: "string \<Rightarrow> string \<Rightarrow> bool" where
  "contains s sub = (0 \<le> py_find s sub)"

text \<open>\<^verbatim>\<open>s.lower()\<close> on 8-bit code points: the ASCII capitals and the Latin-1 capitals
  (\<^verbatim>\<open>0xC0\<close> to \<^verbatim>\<open>0xDE\<close> without the multiplication sign) move up by 32.\<close>

definition is_upper :: "char \<Rightarrow> bool" where
  "is_upper c = (let n = (of_char c :: nat) in
     (65 \<le> n \<and> n \<le> 90) \<or> (192 \<le> n \<and> n \<le> 222 \<and> n \<noteq> 215))"

definition lower_char :: "char \<Rightarrow> char" where
  "lower_char c = (if is_upper c then char_of ((of_char c :: nat) + 32) else c)"

definition lower :: "string \<Rightarrow> string" where
  "lower s = map lower_char s"

text \<open>\<^verbatim>\<open>s.replace(old, new)\<close>: the occurrences of \<open>old\<close> are replaced from the left and do
  not overlap. With the empty \<open>old\<close> Python puts \<open>new\<close> around every character.\<close>

function replace :: "string \<Rightarrow> string \<Rightarrow> string \<Rightarrow> string" where
  "replace [] old new = (if old = [] then new else [])"
| "replace (c # cs) old new =
     (if old = [] then new @ concat (map (\<lambda>x. x # new) (c # cs))
      else if startswith (c # cs) old then new @ replace (drop (length old) (c # cs)) old new
      else c # replace cs old new)"
  by pat_completeness auto
termination
  by (relation "measure (\<lambda>(s, old, new). length s)") auto

text \<open>\<^verbatim>\<open>s.split(sep)\<close> and \<^verbatim>\<open>s.split(sep, 1)\<close> for a non-empty separator (every separator
  in the source is a non-empty literal). \<open>split_once\<close> cuts at the first occurrence.\<close>

fun split_once :: "string \<Rightarrow> string \<Rightarrow> (string \<times> string) option" where
  "split_once [] sep = (if sep = [] then Some ([], []) else None)"
| "split_once (c # cs) sep =
     (if startswith (c # cs) sep then Some ([], drop (length sep) (c # cs))
      else (case split_once cs sep of
              None \<Rightarrow> None
            | Some (a, b) \<Rightarrow> Some (c # a, b)))"

definition py_split1 :: "string \<Rightarrow> string \<Rightarrow> string list" where
  "py_split1 s sep = (case split_once s sep of None \<Rightarrow> [s] | Some (a, b) \<Rightarrow> [a, b])"

lemma split_once_length:
  "split_once s sep = Some (a, b) \<Longrightarrow> sep \<noteq> [] \<Longrightarrow> length b < length s"
proof (induction s arbitrary: a)
  case Nil
  then show ?case by simp
next
  case (Cons c cs)
  show ?case
  proof (cases "startswith (c # cs) sep")
    case True
    with Cons.prems show ?thesis by auto
  next
    case False
    with Cons.prems obtain a' where "split_once cs sep = Some (a', b)"
      by (auto split: option.splits)
    from Cons.IH[OF this Cons.prems(2)] show ?thesis by simp
  qed
qed

function py_split :: "string \<Rightarrow> string \<Rightarrow> string list" where
  "py_split s sep =
     (if sep = [] then [s]
      else (case split_once s sep of
              None \<Rightarrow> [s]
            | Some (a, b) \<Rightarrow> a # py_split b sep))"
  by pat_completeness auto
termination
  by (relation "measure (\<lambda>(s, sep). length s)") (auto dest: split_once_length)

declare py_split.simps [simp del]

text \<open>\<^verbatim>\<open>str(n)\<close> for an integer.\<close>

definition digit_char :: "nat \<Rightarrow> char" where
  "digit_char d = char_of (48 + d)"

function str_nat :: "nat \<Rightarrow> string" where
  "str_nat n = (if n < 10 then [digit_char n] else str_nat (n div 10) @ [digit_char (n mod 10)])"
  by pat_completeness auto
termination
  by (relation "measure (\<lambda>n. n)") auto

declare str_nat.simps [simp del]

definition str_int :: "int \<Rightarrow> string" where
  "str_int i = (if i < 0 then CHR ''-'' # str_nat (nat (- i)) else str_nat (nat i))"

text \<open>\<^verbatim>\<open>json.dumps(s)\<close> for a string \<open>s\<close> (with the default \<^verbatim>\<open>ensure_ascii\<close>): the string in
  double quotes, with the quote, the backslash and every character outside the printable
  ASCII range escaped.\<close>

definition hex_digit :: "nat \<Rightarrow> char" where
  "hex_digit d = (if d < 10 then char_of (48 + d) else char_of (87 + d))"

definition json_escape_char :: "char \<Rightarrow> string" where
  "json_escape_char c =
     (let n = (of_char c :: nat) in
      if c = DQ then [BSL, DQ]
      else if c = BSL then [BSL, BSL]
      else if n = 8 then [BSL, CHR ''b'']
      else if n = 12 then [BSL, CHR ''f'']
      else if c = LF then [BSL, CHR ''n'']
      else if c = CR then [BSL, CHR ''r'']
      else if c = TAB then [BSL, CHR ''t'']
      else if n < 32 \<or> 126 < n then
        [BSL, CHR ''u'', CHR ''0'', CHR ''0'', hex_digit (n div 16), hex_digit (n mod 16)]
      else [c])"

definition json_dumps :: "string \<Rightarrow> string" where
  "json_dumps s = DQ # concat (map json_escape_char s) @ [DQ]"

text \<open>\<^verbatim>\<open>s[a:b]\<close> for arbitrary integers: a negative bound counts from the end, and
  both bounds are clamped to the string.\<close>

definition slice_bound :: "nat \<Rightarrow> int \<Rightarrow> nat" where
  "slice_bound n x = (if x < 0 then nat (max 0 (x + int n)) else min (nat x) n)"

definition py_slice :: "string \<Rightarrow> int \<Rightarrow> int \<Rightarrow> string" where
  "py_slice s a b =
     (let lo = slice_bound (length s) a; hi = slice_bound (length s) b
      in take (hi - lo) (drop lo s))"

text \<open>\<^verbatim>\<open>s[a:]\<close>.\<close>

definition py_slice_from :: "string \<Rightarrow> int \<Rightarrow> string" where
  "py_slice_from s a = drop (slice_bound (length s) a) s"

text \<open>The loop \<^verbatim>\<open>while '  ' in t: t = t.replace('  ', ' ').replace(' ,', ',')\<close>, which the
  source runs on the DDL text (app.py 428-429) and on the rendered metadata columns
  (app.py 720-721). Each round shortens the text, so the loop ends.\<close>

lemma startswith_length: "startswith s p \<Longrightarrow> length p \<le> length s"
  by (induction s p rule: startswith.induct) auto

lemma replace_length_le:
  "length new \<le> length old \<Longrightarrow> length (replace s old new) \<le> length s"
proof (induction s old new rule: replace.induct)
  case (1 old new)
  then show ?case by auto
next
  case (2 c cs old new)
  show ?case
  proof (cases "old = []")
    case True
    with "2.prems" have "new = []" by simp
    with True show ?thesis by (simp add: length_concat comp_def sum_list_triv)
  next
    case False
    show ?thesis
    proof (cases "startswith (c # cs) old")
      case True
      from startswith_length[OF True] have "length old \<le> length (c # cs)" .
      moreover have "length (replace (drop (length old) (c # cs)) old new)
                       \<le> length (drop (length old) (c # cs))"
        using 2 False True by simp
      ultimately show ?thesis using False True "2.prems" by simp
    next
      case nS: False
      with 2 False show ?thesis by simp
    qed
  qed
qed

lemma replace_length_less:
  "length new < length old \<Longrightarrow> contains s old \<Longrightarrow> length (replace s old new) < length s"
proof (induction s old new rule: replace.induct)
  case (1 old new)
  then show ?case by (auto simp: contains_def split: if_splits)
next
  case (2 c cs old new)
  from "2.prems" have ne: "old \<noteq> []" by auto
  show ?case
  proof (cases "startswith (c # cs) old")
    case True
    from startswith_length[OF True] have "length old \<le> length (c # cs)" .
    moreover have "length (replace (drop (length old) (c # cs)) old new)
                     \<le> length (drop (length old) (c # cs))"
      using "2.prems" by (intro replace_length_le) simp
    ultimately show ?thesis using ne True "2.prems" by simp
  next
    case False
    with "2.prems" have "contains cs old"
      by (auto simp: contains_def Let_def split: if_splits)
    with 2 ne False show ?thesis by simp
  qed
qed

function collapse_spaces :: "string \<Rightarrow> string" where
  "collapse_spaces s =
     (if contains s ''  '' then collapse_spaces (replace (replace s ''  '' '' '') '' ,'' '','')
      else s)"
  by pat_completeness auto
termination
proof (relation "measure length")
  show "wf (measure length)" by simp
next
  fix s :: string
  assume "contains s ''  ''"
  then have "length (replace s ''  '' '' '') < length s"
    by (intro replace_length_less) simp
  moreover have "length (replace (replace s ''  '' '' '') '' ,'' '','')
                   \<le> length (replace s ''  '' '' '')"
    by (intro replace_length_le) simp
  ultimately show "(replace (replace s ''  '' '' '') '' ,'' '','', s) \<in> measure length"
    by simp
qed

declare collapse_spaces.simps [simp del]

section \<open>Text normalizer\<close>

text \<open>
  \<^verbatim>\<open>strip_comments\<close> (app.py 364-388) is \<^verbatim>\<open>re.sub('\s*--.*\n?', '', text)\<close>.
  \<open>match_comment s\<close> is the match of that pattern at the start of \<open>s\<close>, as the text left
  after it: the white space is skipped (a dash is not white space, so the greedy
  \<^verbatim>\<open>\s*\<close> never gives characters back), two dashes must follow, \<^verbatim>\<open>.*\<close> runs to the next
  line feed and \<^verbatim>\<open>\n?\<close> consumes that line feed. \<^verbatim>\<open>re.sub\<close> deletes the leftmost matches
  and copies every other character.
\<close>

definition match_comment :: "string \<Rightarrow> string option" where
  "match_comment s =
     (let t = dropWhile is_space s
      in if startswith t ''--''
         then Some (case dropWhile (\<lambda>c. c \<noteq> LF) (drop 2 t) of [] \<Rightarrow> [] | c # rest \<Rightarrow> rest)
         else None)"

lemma match_comment_length:
  assumes "match_comment s = Some rest"
  shows "length rest < length s"
proof -
  let ?t = "dropWhile is_space s"
  let ?u = "dropWhile (\<lambda>c. c \<noteq> LF) (drop 2 ?t)"
  from assms have sw: "startswith ?t ''--''" and r: "rest = (case ?u of [] \<Rightarrow> [] | c # rest \<Rightarrow> rest)"
    by (auto simp: match_comment_def Let_def split: if_splits)
  from startswith_length[OF sw] have "2 \<le> length ?t" by simp
  moreover have "length ?t \<le> length s" by (rule length_dropWhile_le)
  moreover have "length ?u \<le> length (drop 2 ?t)" by (rule length_dropWhile_le)
  moreover have "length (case u of [] \<Rightarrow> [] | c # rest \<Rightarrow> rest) \<le> length u" for u :: string
    by (cases u) simp_all
  then have "length rest \<le> length ?u" unfolding r .
  ultimately show ?thesis by simp
qed

function strip_comments :: "string \<Rightarrow> string" where
  "strip_comments [] = []"
| "strip_comments (c # cs) =
     (case match_comment (c # cs) of
        Some rest \<Rightarrow> strip_comments rest
      | None \<Rightarrow> c # strip_comments cs)"
  by pat_completeness auto
termination
  by (relation "measure length") (auto dest: match_comment_length)

text \<open>The normalization at the head of \<^verbatim>\<open>detect_table_changes\<close> (app.py 424-429).\<close>

definition normalize_ddl_text :: "string \<Rightarrow> string" where
  "normalize_ddl_text ddl_text =
     collapse_spaces
       (lower (replace (replace (replace (replace (replace (replace ddl_text
          [LF] '' '') [CR] []) [CHR 0x60] []) '';'' []) [TAB] '' '') '' )'' '')''))"

section \<open>Column extractor\<close>

text \<open>
  \<^verbatim>\<open>split_ddl_columns_segment\<close> (app.py 537-594). The loop state is the stack of
  open-parenthesis offsets (the head of the list is the top of the Python stack), the
  insertion-ordered dictionary \<^verbatim>\<open>index_dict\<close> as an association list, and the three
  counters the source keeps.
\<close>

record scan_state =
  stack :: "nat list"
  index_dict :: "(nat \<times> nat) list"
  start_pos :: nat
  end_pos :: nat
  p_count :: int

definition scan_init :: scan_state where
  "scan_init = \<lparr>stack = [], index_dict = [], start_pos = 0, end_pos = 0, p_count = 0\<rparr>"

text \<open>The \<^verbatim>\<open>for i, c in enumerate(ddl_text)\<close> loop, from offset \<open>i\<close> on. \<^verbatim>\<open>stack.pop()\<close>
  on the empty stack raises \<^verbatim>\<open>IndexError\<close>, which the handler re-raises; \<^verbatim>\<open>break\<close> ends
  the loop with the current state.\<close>

fun scan_parens :: "nat \<Rightarrow> string \<Rightarrow> scan_state \<Rightarrow> py_error + scan_state" where
  "scan_parens i [] st = Inr st"
| "scan_parens i (c # cs) st =
     (if c = LPAR then
        scan_parens (Suc i) cs
          (st\<lparr>stack := i # stack st,
              start_pos := (if start_pos st = 0 then i else start_pos st),
              p_count := p_count st + 1\<rparr>)
      else if c = RPAR then
        (case stack st of
           [] \<Rightarrow> Inl IndexError
         | opened # below \<Rightarrow>
             (let st' = st\<lparr>stack := below,
                            index_dict := AList.update opened i (index_dict st),
                            p_count := p_count st - 1\<rparr>
              in if p_count st' = 0 then Inr (st'\<lparr>end_pos := i\<rparr>)
                 else scan_parens (Suc i) cs st'))
      else scan_parens (Suc i) cs st)"

definition unbalanced_msg :: string where
  "unbalanced_msg = ''Encountered unbalanced parentheses while parsing the columns list in DDL -- Check the DDL for syntax errors!''"

definition split_ddl_columns_segment :: "string \<Rightarrow> py_error + (string \<times> string)" where
  "split_ddl_columns_segment ddl_text =
     (case scan_parens 0 ddl_text scan_init of
        Inl e \<Rightarrow> Inl e
      | Inr st \<Rightarrow>
          if stack st \<noteq> [] then Inl (PyException unbalanced_msg)
          else if index_dict st = [] then Inl IndexError
          else (let columns_list_start_end = last (index_dict st)
                in Inr (strip (py_slice ddl_text (int (fst columns_list_start_end) + 1)
                                 (int (snd columns_list_start_end))),
                        py_slice_from ddl_text (int (snd columns_list_start_end) + 1))))"

subsection \<open>Parenthesis structure of a text\<close>

text \<open>
  The vocabulary in which the properties of the column extractor are stated.
  \<open>nested d s\<close>: read at nesting depth \<open>d\<close>, the text \<open>s\<close> never closes a parenthesis
  it did not open and ends at depth zero; \<open>nested 0 s\<close> is a balanced text.
  \<open>unclosed d s\<close>: read at depth \<open>d\<close> inside an open group, \<open>s\<close> ends without closing
  that group.
\<close>

definition no_paren :: "string \<Rightarrow> bool" where
  "no_paren s = (LPAR \<notin> set s \<and> RPAR \<notin> set s)"

fun nested :: "nat \<Rightarrow> string \<Rightarrow> bool" where
  "nested d [] = (d = 0)"
| "nested d (c # cs) =
     (if c = LPAR then nested (Suc d) cs
      else if c = RPAR then (case d of 0 \<Rightarrow> False | Suc k \<Rightarrow> nested k cs)
      else nested d cs)"

fun unclosed :: "nat \<Rightarrow> string \<Rightarrow> bool" where
  "unclosed d [] = True"
| "unclosed d (c # cs) =
     (if c = LPAR then unclosed (Suc d) cs
      else if c = RPAR then (case d of 0 \<Rightarrow> False | Suc k \<Rightarrow> unclosed k cs)
      else unclosed d cs)"

definition is_paren :: "char \<Rightarrow> bool" where
  "is_paren c = (c = LPAR \<or> c = RPAR)"

text \<open>The first parenthesis character of a text, and the text after it.\<close>

definition first_paren :: "string \<Rightarrow> char option" where
  "first_paren s = List.find is_paren s"

definition after_first_paren :: "string \<Rightarrow> string" where
  "after_first_paren s = tl (dropWhile (\<lambda>c. \<not> is_paren c) s)"

section \<open>Clause indexer and segmenter\<close>

text \<open>The module-level marker catalogs and the not-found sentinel (app.py 89-102).\<close>

definition ddl_clauses_list :: "string list" where
  "ddl_clauses_list =
     ['' comment '' @ [SQ], '' partitioned by '', '' clustered by '', '' row format '',
      '' stored as '', '' location 's3:'', '' tblproperties '']"

definition ddl_row_format_subclauses_list :: "string list" where
  "ddl_row_format_subclauses_list =
     ['' fields terminated by '' @ [SQ], '' escaped by '' @ [SQ],
      '' collection items terminated by '' @ [SQ],
      '' map keys terminated by '' @ [SQ],
      '' lines terminated by '' @ [SQ],
      '' null defined as '' @ [SQ],
      '' serde '' @ [SQ], '' with serdeproperties ('',
      '' delimited '']"

definition NOT_FOUND :: int where
  "NOT_FOUND = -1"

text \<open>One entry of the clause index: the dictionary \<^verbatim>\<open>{'Clause': ..., 'Index': ...}\<close>.\<close>

record clause_entry =
  Clause :: string
  Index :: int

text \<open>The body of the \<^verbatim>\<open>for clause in clauses_list\<close> loop of \<^verbatim>\<open>index_ddl_clauses\<close>
  (app.py 623-644): the entry appended for one marker.\<close>

definition index_clause :: "string \<Rightarrow> string \<Rightarrow> clause_entry" where
  "index_clause ddl_segment_text clause =
     (let c = strip clause;
          clause_index = py_find ddl_segment_text c
      in if c = ''comment '' @ [SQ] then
           (if clause_index = 0 then \<lparr>Clause = c, Index = clause_index\<rparr>
            else \<lparr>Clause = c, Index = NOT_FOUND\<rparr>)
         else
           (if clause_index \<ge> 0 then \<lparr>Clause = c, Index = clause_index\<rparr>
            else \<lparr>Clause = c, Index = NOT_FOUND\<rparr>))"

text \<open>\<^verbatim>\<open>index_ddl_clauses\<close> (app.py 597-649). \<^verbatim>\<open>sorted(..., key=...)\<close> is a stable sort, as
  \<^const>\<open>sort_key\<close> is.\<close>

definition index_ddl_clauses :: "string \<Rightarrow> string list \<Rightarrow> clause_entry list" where
  "index_ddl_clauses ddl_segment_text clauses_list =
     sort_key Index (map (index_clause ddl_segment_text) clauses_list)"

text \<open>\<^verbatim>\<open>segmentize_ddl_by_clause\<close> (app.py 652-687). After the loop the source reads the
  loop variable \<^verbatim>\<open>i\<close>; when the list has fewer than two entries the loop body never ran
  and that read raises \<^verbatim>\<open>UnboundLocalError\<close>. Otherwise \<^verbatim>\<open>i + 1\<close> is the last position.\<close>

definition segmentize_ddl_by_clause :: "string \<Rightarrow> clause_entry list \<Rightarrow> py_error + string list" where
  "segmentize_ddl_by_clause ddl_text clauses_list_sorted =
     (let n = length clauses_list_sorted;
          ddl_segments = concat (map (\<lambda>i.
              if Index (clauses_list_sorted ! i) \<noteq> NOT_FOUND
              then [strip (py_slice ddl_text (Index (clauses_list_sorted ! i))
                                             (Index (clauses_list_sorted ! (i + 1))))]
              else []) [0 ..< n - 1])
      in if n < 2 then Inl UnboundLocalError
         else if Index (clauses_list_sorted ! (n - 1)) \<noteq> NOT_FOUND
         then Inr (ddl_segments @
                   [strip (py_slice ddl_text (Index (clauses_list_sorted ! (n - 1)))
                                             (int (length ddl_text)))])
         else Inr ddl_segments)"

text \<open>The segment boundaries in the words of the specification: one segment per present
  marker, from its offset to the offset of the next present marker, the last one to the
  end of the text.\<close>

definition present_offsets :: "clause_entry list \<Rightarrow> int list" where
  "present_offsets cl = filter (\<lambda>x. x \<noteq> NOT_FOUND) (map Index cl)"

definition segment_bounds :: "string \<Rightarrow> clause_entry list \<Rightarrow> (int \<times> int) list" where
  "segment_bounds ddl_text cl =
     zip (present_offsets cl) (tl (present_offsets cl) @ [int (length ddl_text)])"

section \<open>Row-format variant classifier\<close>

definition ROW_FORMAT_WITH_SERDEPROPERTIES :: string where
  "ROW_FORMAT_WITH_SERDEPROPERTIES = ''with serdeproperties''"

definition ROW_FORMAT_SERDE :: string where
  "ROW_FORMAT_SERDE = ''serde''"

definition ROW_FORMAT_DELIMITED :: string where
  "ROW_FORMAT_DELIMITED = ''delimited''"

text \<open>The loop of \<^verbatim>\<open>determine_row_format_type\<close> (app.py 996-1008) over the entries that
  remain, with the value of \<^verbatim>\<open>ddl_row_format_type\<close> so far (\<open>None\<close> as in the source).
  The two \<^verbatim>\<open>break\<close> branches return at once.\<close>

fun row_format_type_loop :: "clause_entry list \<Rightarrow> string option \<Rightarrow> string option" where
  "row_format_type_loop [] ddl_row_format_type = ddl_row_format_type"
| "row_format_type_loop (e # es) ddl_row_format_type =
     (if Clause e = ''with serdeproperties ('' \<and> Index e \<noteq> NOT_FOUND
      then Some ROW_FORMAT_WITH_SERDEPROPERTIES
      else if Clause e = ''serde '' @ [SQ] \<and> Index e \<noteq> NOT_FOUND
      then row_format_type_loop es (Some ROW_FORMAT_SERDE)
      else if Clause e = ''delimited'' \<and> Index e \<noteq> NOT_FOUND
      then Some ROW_FORMAT_DELIMITED
      else row_format_type_loop es ddl_row_format_type)"

definition no_row_format_msg :: string where
  "no_row_format_msg =
     ''Unable to find any of the expected ROW FORMATS=serde, with serdeproperties, or delimited in the DDL.''"

definition determine_row_format_type :: "clause_entry list \<Rightarrow> py_error + string" where
  "determine_row_format_type ddl_row_format_subclauses_list_sorted =
     (case row_format_type_loop ddl_row_format_subclauses_list_sorted None of
        None \<Rightarrow> Inl (PyException no_row_format_msg)
      | Some ddl_row_format_type \<Rightarrow> Inr ddl_row_format_type)"

text \<open>A marker is present in an index when some entry records it with an offset. The
  first present entry among the two markers that end the loop decides the variant.\<close>

definition present :: "string \<Rightarrow> clause_entry list \<Rightarrow> bool" where
  "present m cl = (\<exists>e \<in> set cl. Clause e = m \<and> Index e \<noteq> NOT_FOUND)"

definition first_terminal :: "clause_entry list \<Rightarrow> clause_entry option" where
  "first_terminal cl =
     List.find (\<lambda>e. Index e \<noteq> NOT_FOUND
                  \<and> (Clause e = ''with serdeproperties ('' \<or> Clause e = ''delimited'')) cl"

section \<open>Table metadata\<close>

text \<open>
  The \<^verbatim>\<open>get_tables\<close> response for one table, with the keys the change detector reads.
  A key the source reads inside \<^verbatim>\<open>try ... except KeyError\<close> is optional (the column
  comments, and the entries of the two \<^verbatim>\<open>Parameters\<close> dictionaries, which are association
  lists); every other key is read unguarded and is a field of the record. The
  \<^verbatim>\<open>Parameters\<close> of \<^verbatim>\<open>SerdeInfo\<close> is the field \<open>SerdeParameters\<close>.
\<close>

record column =
  Name :: string
  Type :: string
  Comment :: "string option"

record serde_info =
  SerializationLibrary :: string
  SerdeParameters :: "(string \<times> string) list"

record storage_descriptor =
  Columns :: "column list"
  BucketColumns :: "string list"
  NumberOfBuckets :: int
  SerdeInfo :: serde_info
  InputFormat :: string
  OutputFormat :: string
  Location :: string

record table_metadata =
  StorageDescriptor :: storage_descriptor
  PartitionKeys :: "column list"
  Parameters :: "(string \<times> string) list"

text \<open>\<^verbatim>\<open>dict((k.lower(), v.lower()) for k, v in d.items())\<close>: a key met again replaces the
  value and keeps its place.\<close>

definition lower_dict :: "(string \<times> string) list \<Rightarrow> (string \<times> string) list" where
  "lower_dict d = foldl (\<lambda>acc (k, v). AList.update (lower k) (lower v) acc) [] d"

text \<open>\<^verbatim>\<open>if f(...) is True: return True\<close>, followed by the rest of the function.\<close>

definition return_true_or :: "py_error + bool \<Rightarrow> py_error + bool \<Rightarrow> py_error + bool" where
  "return_true_or r rest = (case r of Inl e \<Rightarrow> Inl e | Inr b \<Rightarrow> if b then Inr True else rest)"

section \<open>Change detector: columns, comment, partitioning, clustering\<close>

text \<open>\<^verbatim>\<open>have_columns_changed\<close> (app.py 690-732).\<close>

definition render_meta_column :: "column \<Rightarrow> string" where
  "render_meta_column column =
     (case Comment column of
        Some comment \<Rightarrow> '' '' @ Name column @ '' '' @ Type column @ '' comment '' @ [SQ]
                          @ replace comment [SQ] [BSL, SQ] @ [SQ] @ '',''
      | None \<Rightarrow> '' '' @ Name column @ '' '' @ Type column @ '','')"

definition have_columns_changed :: "table_metadata \<Rightarrow> string \<Rightarrow> bool" where
  "have_columns_changed table_metadata ddl_columns =
     (let meta_columns = foldl (\<lambda>acc column. acc @ render_meta_column column) []
                           (Columns (StorageDescriptor table_metadata));
          meta_columns = strip (butlast meta_columns);
          meta_columns = collapse_spaces meta_columns
      in ddl_columns \<noteq> lower meta_columns)"

text \<open>\<^verbatim>\<open>has_table_comment_changed\<close> (app.py 735-787). When the metadata has no comment and
  the DDL has one, the log message evaluates \<^verbatim>\<open>ddl_comment_segment.split(' ', 1)[1]\<close>, which
  raises \<^verbatim>\<open>IndexError\<close> on a segment without a space; the two-name unpacking in the last
  branch raises \<^verbatim>\<open>ValueError\<close> there.\<close>

definition has_table_comment_changed :: "table_metadata \<Rightarrow> string list \<Rightarrow> py_error + bool" where
  "has_table_comment_changed table_metadata ddl_segments =
     (let ddl_comment_segment = List.find (\<lambda>segment. startswith segment ''comment'') ddl_segments;
          metadata_comment = map_option (\<lambda>c. lower (replace c [SQ] [BSL, SQ]))
                               (map_of (Parameters table_metadata) ''comment'')
      in case metadata_comment of
           None \<Rightarrow>
             (case ddl_comment_segment of
                None \<Rightarrow> Inr False
              | Some segment \<Rightarrow>
                  (case py_split1 segment '' '' of
                     [k, v] \<Rightarrow> Inr True
                   | _ \<Rightarrow> Inl IndexError))
         | Some metadata_comment \<Rightarrow>
             (case ddl_comment_segment of
                None \<Rightarrow> Inr True
              | Some segment \<Rightarrow>
                  (case py_split1 segment '' '' of
                     [ddl_segment_key, ddl_segment_value] \<Rightarrow>
                       Inr (metadata_comment \<noteq> strip_chars [SQ] ddl_segment_value)
                   | _ \<Rightarrow> Inl ValueError)))"

text \<open>\<^verbatim>\<open>has_partitioning_changed\<close> (app.py 790-853). \<open>render_partition_key\<close> is what one
  round of the loop adds for a key, with or without its comment.\<close>

definition render_partition_key :: "column \<Rightarrow> string" where
  "render_partition_key element =
     (case Comment element of
        Some comment \<Rightarrow> lower (Name element) @ '' '' @ lower (Type element) @ '' comment '' @ [SQ]
                          @ lower (replace comment [SQ] [BSL, SQ]) @ [SQ]
      | None \<Rightarrow> lower (Name element) @ '' '' @ lower (Type element))"

definition has_partitioning_changed :: "table_metadata \<Rightarrow> string list \<Rightarrow> py_error + bool" where
  "has_partitioning_changed table_metadata ddl_segments =
     (let ddl_partitioning_segment =
            List.find (\<lambda>segment. startswith segment ''partitioned by'') ddl_segments
      in if length (PartitionKeys table_metadata) = 0 then
           (case ddl_partitioning_segment of None \<Rightarrow> Inr False | Some segment \<Rightarrow> Inr True)
         else
           (case ddl_partitioning_segment of
              None \<Rightarrow> Inr True
            | Some segment \<Rightarrow>
                (case py_split1 segment ''('' of
                   [ddl_segment_key, ddl_segment_value] \<Rightarrow>
                     (let ddl_segment_value = strip (butlast ddl_segment_value);
                          metadata_partition =
                            foldl (\<lambda>acc (i, element).
                                     if i = 0 then render_partition_key element
                                     else acc @ '', '' @ render_partition_key element)
                              [] (enumerate 0 (PartitionKeys table_metadata))
                      in Inr (metadata_partition \<noteq> ddl_segment_value))
                 | _ \<Rightarrow> Inl ValueError)))"

text \<open>\<^verbatim>\<open>has_clustering_changed\<close> (app.py 856-911).\<close>

definition has_clustering_changed :: "table_metadata \<Rightarrow> string list \<Rightarrow> py_error + bool" where
  "has_clustering_changed table_metadata ddl_segments =
     (let ddl_clustering_segment =
            List.find (\<lambda>segment. startswith segment ''clustered by'') ddl_segments
      in if length (BucketColumns (StorageDescriptor table_metadata)) = 0 then
           (case ddl_clustering_segment of None \<Rightarrow> Inr False | Some segment \<Rightarrow> Inr True)
         else
           (case ddl_clustering_segment of
              None \<Rightarrow> Inr True
            | Some segment \<Rightarrow>
                (case py_split1 segment ''('' of
                   [ddl_segment_key, ddl_segment_value] \<Rightarrow>
                     (let ddl_segment_value = strip (replace ddl_segment_value '')'' []);
                          metadata_bucket_columns = BucketColumns (StorageDescriptor table_metadata);
                          metadata_cluster =
                            foldl (\<lambda>acc (i, element).
                                     if i = 0 then lower element
                                     else acc @ '', '' @ lower element)
                              [] (enumerate 0 metadata_bucket_columns);
                          metadata_cluster = metadata_cluster @ '' into ''
                            @ str_int (NumberOfBuckets (StorageDescriptor table_metadata))
                            @ '' buckets''
                      in Inr (metadata_cluster \<noteq> ddl_segment_value))
                 | _ \<Rightarrow> Inl ValueError)))"

section \<open>Change detector: row format\<close>

text \<open>\<^verbatim>\<open>get_meta_row_format_delimiters\<close> (app.py 1406-1476): each of the seven serde
  parameters as \<^verbatim>\<open>json.dumps\<close> of its value, or \<open>None\<close> when the key is missing.\<close>

record meta_delimiters =
  meta_json_escape_delim_char :: "string option"
  meta_json_field_delim_char :: "string option"
  meta_json_collection_delim_char :: "string option"
  meta_serialization_format :: "string option"
  meta_json_map_keys_delim_char :: "string option"
  meta_json_line_delim_char :: "string option"
  meta_json_ser_null_format_char :: "string option"

definition get_meta_row_format_delimiters :: "table_metadata \<Rightarrow> meta_delimiters" where
  "get_meta_row_format_delimiters table_metadata =
     (let metadata_serdeinfo_parms = SerdeParameters (SerdeInfo (StorageDescriptor table_metadata))
      in \<lparr>meta_json_escape_delim_char =
              map_option json_dumps (map_of metadata_serdeinfo_parms ''escape.delim''),
          meta_json_field_delim_char =
              map_option json_dumps (map_of metadata_serdeinfo_parms ''field.delim''),
          meta_json_collection_delim_char =
              map_option json_dumps (map_of metadata_serdeinfo_parms ''colelction.delim''),
          meta_serialization_format =
              map_option json_dumps (map_of metadata_serdeinfo_parms ''serialization.format''),
          meta_json_map_keys_delim_char =
              map_option json_dumps (map_of metadata_serdeinfo_parms ''mapkey.delim''),
          meta_json_line_delim_char =
              map_option json_dumps (map_of metadata_serdeinfo_parms ''line.delim''),
          meta_json_ser_null_format_char =
              map_option json_dumps (map_of metadata_serdeinfo_parms ''serialization.null.format'')\<rparr>)"

text \<open>The four branches of \<^verbatim>\<open>have_row_format_delimiters_changed\<close> that compare one quoted
  character (app.py 1344-1401) differ in the prefix they remove and in the metadata
  value they compare with.\<close>

definition single_delimiter_changed :: "string option \<Rightarrow> string \<Rightarrow> string \<Rightarrow> bool" where
  "single_delimiter_changed meta_json_char prefix ddl_row_format_delimiter =
     (let ddl_char = rstrip_chars [SQ] (replace ddl_row_format_delimiter prefix []);
          ddl_json_char = DQ # ddl_char @ [DQ]
      in meta_json_char \<noteq> Some ddl_json_char)"

text \<open>\<^verbatim>\<open>have_row_format_delimiters_changed\<close> (app.py 1231-1403). The two optional arguments
  are \<open>None\<close> when the caller leaves them out. A string method called on a
  \<^verbatim>\<open>ddl_row_format_delimiter\<close> that is \<open>None\<close> raises \<^verbatim>\<open>AttributeError\<close>.\<close>

definition have_row_format_delimiters_changed ::
  "table_metadata \<Rightarrow> string option \<Rightarrow> string option \<Rightarrow> py_error + bool" where
  "have_row_format_delimiters_changed table_metadata ddl_row_format_delimiter
       ddl_row_format_delimiter_type =
     (let table_metadata_serialization_lib =
            SerializationLibrary (SerdeInfo (StorageDescriptor table_metadata));
          m = get_meta_row_format_delimiters table_metadata
      in case ddl_row_format_delimiter_type of
           None \<Rightarrow>
             if meta_json_escape_delim_char m \<noteq> None \<or> meta_json_field_delim_char m \<noteq> None
                \<or> meta_json_collection_delim_char m \<noteq> None
                \<or> meta_json_map_keys_delim_char m \<noteq> None
                \<or> meta_json_line_delim_char m \<noteq> None
                \<or> meta_json_ser_null_format_char m \<noteq> None
             then Inr True
             else if startswith table_metadata_serialization_lib ''org.apache.'' then Inr False
             else Inr True
         | Some ty \<Rightarrow>
             if ty = ''no properties'' then
               (if meta_serialization_format m = Some [DQ, CHR ''1'', DQ] then Inr False
                else Inr True)
             else if ty = ''fields escaped'' then
               (case ddl_row_format_delimiter of
                  None \<Rightarrow> Inl AttributeError
                | Some d \<Rightarrow>
                    (case py_split d ('' escaped by '' @ [SQ]) of
                       [ddl_rfd_split_1, ddl_rfd_split_2] \<Rightarrow>
                         (let ddl_fields_terminated_by_char =
                                rstrip_chars [SQ]
                                  (replace ddl_rfd_split_1 (''fields terminated by '' @ [SQ]) []);
                              ddl_escaped_by_char = rstrip_chars [SQ] ddl_rfd_split_2;
                              ddl_json_escaped_by_char = DQ # ddl_escaped_by_char @ [DQ];
                              ddl_json_fields_terminated_by_char =
                                DQ # ddl_fields_terminated_by_char @ [DQ]
                          in if meta_json_field_delim_char m = Some ddl_json_fields_terminated_by_char
                             then (if meta_json_escape_delim_char m = Some ddl_json_escaped_by_char
                                   then Inr False else Inr True)
                             else Inr True)
                     | _ \<Rightarrow> Inl ValueError))
             else if ty = ''fields'' then
               (case ddl_row_format_delimiter of
                  None \<Rightarrow> Inl AttributeError
                | Some d \<Rightarrow>
                    (let ddl_fields_terminated_by_char =
                           rstrip_chars [SQ] (replace d (''fields terminated by '' @ [SQ]) []);
                         ddl_json_fields_terminated_by_char =
                           DQ # ddl_fields_terminated_by_char @ [DQ]
                     in if meta_serialization_format m = Some [DQ, CHR ''1'', DQ]
                           \<and> ddl_json_fields_terminated_by_char = [DQ, CHR ''|'', DQ]
                        then Inr False
                        else if meta_json_field_delim_char m = Some ddl_json_fields_terminated_by_char
                        then Inr False
                        else Inr True))
             else if ty = ''collection'' then
               (case ddl_row_format_delimiter of
                  None \<Rightarrow> Inl AttributeError
                | Some d \<Rightarrow>
                    Inr (single_delimiter_changed (meta_json_collection_delim_char m)
                           (''collection items terminated by '' @ [SQ]) d))
             else if ty = ''map keys'' then
               (case ddl_row_format_delimiter of
                  None \<Rightarrow> Inl AttributeError
                | Some d \<Rightarrow>
                    Inr (single_delimiter_changed (meta_json_map_keys_delim_char m)
                           (''map keys terminated by '' @ [SQ]) d))
             else if ty = ''lines'' then
               (case ddl_row_format_delimiter of
                  None \<Rightarrow> Inl AttributeError
                | Some d \<Rightarrow>
                    Inr (single_delimiter_changed (meta_json_line_delim_char m)
                           (''lines terminated by '' @ [SQ]) d))
             else if ty = ''null defined'' then
               (case ddl_row_format_delimiter of
                  None \<Rightarrow> Inl AttributeError
                | Some d \<Rightarrow>
                    Inr (single_delimiter_changed (meta_json_ser_null_format_char m)
                           (''null defined as '' @ [SQ]) d))
             else Inl (PyException
                    ''Function received an invalid ddl_row_format_delimiter_type parameter!''))"

text \<open>\<^verbatim>\<open>check_row_format_delimited_properties\<close> (app.py 1143-1228). Each of the six steps
  that follow the search may set the flag; \<open>run_flag_steps\<close> runs them in the source's
  order, a step that is skipped being \<open>None\<close>, and stops at the first exception.\<close>

fun run_flag_steps :: "bool \<Rightarrow> (py_error + bool) option list \<Rightarrow> py_error + bool" where
  "run_flag_steps row_format_has_changed [] = Inr row_format_has_changed"
| "run_flag_steps row_format_has_changed (None # steps) =
     run_flag_steps row_format_has_changed steps"
| "run_flag_steps row_format_has_changed (Some (Inl e) # steps) = Inl e"
| "run_flag_steps row_format_has_changed (Some (Inr b) # steps) =
     run_flag_steps (if b then True else row_format_has_changed) steps"

definition subclause_word :: "nat \<Rightarrow> string" where
  "subclause_word k = strip (replace (ddl_row_format_subclauses_list ! k) [SQ] [])"

definition check_row_format_delimited_properties ::
  "string list option \<Rightarrow> table_metadata \<Rightarrow> py_error + bool" where
  "check_row_format_delimited_properties ddl_row_format_delimited table_metadata =
     (case ddl_row_format_delimited of
        None \<Rightarrow> have_row_format_delimiters_changed table_metadata None None
      | Some segments \<Rightarrow>
          (let ddl_fields_terminator =
                 List.find (\<lambda>segment. contains segment (subclause_word 0)) segments;
               ddl_escaped_by =
                 List.find (\<lambda>segment. contains segment (subclause_word 1)) segments;
               ddl_collection_terminator =
                 List.find (\<lambda>segment. contains segment (subclause_word 2)) segments;
               ddl_map_keys_terminator =
                 List.find (\<lambda>segment. contains segment (subclause_word 3)) segments;
               ddl_lines_terminator =
                 List.find (\<lambda>segment. contains segment (subclause_word 4)) segments;
               ddl_null_defined =
                 List.find (\<lambda>segment. contains segment (subclause_word 5)) segments
           in run_flag_steps False
                [if ddl_fields_terminator = None \<and> ddl_escaped_by = None
                    \<and> ddl_collection_terminator = None \<and> ddl_map_keys_terminator = None
                    \<and> ddl_lines_terminator = None \<and> ddl_null_defined = None
                 then Some (have_row_format_delimiters_changed table_metadata None
                              (Some ''no properties''))
                 else None,
                 case ddl_fields_terminator of
                   None \<Rightarrow> None
                 | Some f \<Rightarrow>
                     (case ddl_escaped_by of
                        Some e \<Rightarrow> Some (have_row_format_delimiters_changed table_metadata
                                            (Some (f @ '' '' @ e)) (Some ''fields escaped''))
                      | None \<Rightarrow> Some (have_row_format_delimiters_changed table_metadata
                                          (Some f) (Some ''fields''))),
                 map_option (\<lambda>d. have_row_format_delimiters_changed table_metadata
                                     (Some d) (Some ''collection'')) ddl_collection_terminator,
                 map_option (\<lambda>d. have_row_format_delimiters_changed table_metadata
                                     (Some d) (Some ''map keys'')) ddl_map_keys_terminator,
                 map_option (\<lambda>d. have_row_format_delimiters_changed table_metadata
                                     (Some d) (Some ''lines'')) ddl_lines_terminator,
                 map_option (\<lambda>d. have_row_format_delimiters_changed table_metadata
                                     (Some d) (Some ''null defined'')) ddl_null_defined]))"

text \<open>
  \<^verbatim>\<open>json.loads\<close> and \<^verbatim>\<open>DeepDiff\<close> come from libraries outside the repository. The
  functions that call them take them as the parameters \<open>json_loads\<close> (the dictionary
  parsed from a text that starts with a brace, or the exception raised) and \<open>deep_diff\<close>
  (the number of entries of \<^verbatim>\<open>DeepDiff(a, b, ignore_order=True)\<close>).
\<close>

type_synonym 'v json_loads = "string \<Rightarrow> py_error + (string \<times> 'v) list"
type_synonym 'v deep_diff = "(string \<times> 'v) list \<Rightarrow> (string \<times> string) list \<Rightarrow> nat"

text \<open>\<^verbatim>\<open>have_serdeproperties_changed\<close> (app.py 1085-1140).\<close>

definition ddl_properties_json :: "string \<Rightarrow> string" where
  "ddl_properties_json props = strip (replace (replace props ''='' '': '') [SQ] [DQ])"

definition have_serdeproperties_changed ::
  "'v json_loads \<Rightarrow> 'v deep_diff \<Rightarrow> string \<Rightarrow> table_metadata \<Rightarrow> py_error + bool" where
  "have_serdeproperties_changed json_loads deep_diff ddl_serde_properties table_metadata =
     (let metadata_serde_properties = SerdeParameters (SerdeInfo (StorageDescriptor table_metadata))
      in if length metadata_serde_properties = 0 then Inr True
         else
           (let metadata_serde_properties = lower_dict metadata_serde_properties;
                ddl_serde_properties =
                  (if ''serialization.format'' \<in> fst ` set metadata_serde_properties
                   then (if contains ddl_serde_properties ''serialization.format''
                         then ''{'' @ ddl_properties_json ddl_serde_properties @ ''}''
                         else ''{'' @ ddl_properties_json ddl_serde_properties
                              @ '', '' @ [DQ] @ ''serialization.format'' @ [DQ] @ '': ''
                              @ [DQ] @ ''1'' @ [DQ] @ ''}'')
                   else ''{'' @ ddl_properties_json ddl_serde_properties @ ''}'')
            in case json_loads ddl_serde_properties of
                 Inl e \<Rightarrow> Inl e
               | Inr ddl_dict \<Rightarrow>
                   Inr (deep_diff ddl_dict metadata_serde_properties > 0)))"

text \<open>\<^verbatim>\<open>has_row_format_serde_changed\<close> (app.py 1017-1082). \<^verbatim>\<open>xs[k]\<close> on a list and the
  second field of a split raise \<^verbatim>\<open>IndexError\<close> when they do not exist.\<close>

definition second_field :: "string \<Rightarrow> string \<Rightarrow> py_error + string" where
  "second_field s sep = (case py_split s sep of a # b # rest \<Rightarrow> Inr b | _ \<Rightarrow> Inl IndexError)"

definition has_row_format_serde_changed ::
  "'v json_loads \<Rightarrow> 'v deep_diff \<Rightarrow> table_metadata \<Rightarrow> string list option \<Rightarrow> string option
     \<Rightarrow> py_error + bool" where
  "has_row_format_serde_changed json_loads deep_diff table_metadata ddl_serde_info
       ddl_row_format_type =
     (let table_metadata_serialization_lib =
            SerializationLibrary (SerdeInfo (StorageDescriptor table_metadata))
      in case ddl_serde_info of
           None \<Rightarrow>
             if startswith table_metadata_serialization_lib ''org.apache.'' then Inr False
             else Inr True
         | Some info \<Rightarrow>
             (let parsed =
                (if ddl_row_format_type = Some ROW_FORMAT_WITH_SERDEPROPERTIES then
                   (case info of
                      [] \<Rightarrow> Inl IndexError
                    | s0 # others \<Rightarrow>
                        (case second_field s0 '' '' of
                           Inl e \<Rightarrow> Inl e
                         | Inr lib \<Rightarrow>
                             (case others of
                                [] \<Rightarrow> Inl IndexError
                              | s1 # others' \<Rightarrow>
                                  (case second_field s1 '' ('' of
                                     Inl e \<Rightarrow> Inl e
                                   | Inr props \<Rightarrow>
                                       Inr (strip_chars [SQ] lib,
                                            Some (strip_chars '')'' props))))))
                 else if ddl_row_format_type = Some ROW_FORMAT_SERDE then
                   (case info of
                      [] \<Rightarrow> Inl IndexError
                    | s0 # others \<Rightarrow>
                        (case second_field s0 '' '' of
                           Inl e \<Rightarrow> Inl e
                         | Inr lib \<Rightarrow> Inr (strip_chars [SQ] lib, None)))
                 else Inl (PyException
                   ''Encountered unexpected value for ddl_row_format_type function argument. Please investigate!''))
              in case parsed of
                   Inl e \<Rightarrow> Inl e
                 | Inr (ddl_serde_lib, ddl_serdeproperties) \<Rightarrow>
                     return_true_or
                       (case ddl_serdeproperties of
                          None \<Rightarrow> Inr False
                        | Some props \<Rightarrow>
                            have_serdeproperties_changed json_loads deep_diff props table_metadata)
                       (Inr (ddl_serde_lib \<noteq> lower table_metadata_serialization_lib))))"

text \<open>\<^verbatim>\<open>has_row_format_changed\<close> (app.py 914-971).\<close>

definition has_row_format_changed ::
  "'v json_loads \<Rightarrow> 'v deep_diff \<Rightarrow> table_metadata \<Rightarrow> string list \<Rightarrow> py_error + bool" where
  "has_row_format_changed json_loads deep_diff table_metadata ddl_segments =
     (case List.find (\<lambda>segment. startswith segment ''row format '') ddl_segments of
        None \<Rightarrow>
          return_true_or (has_row_format_serde_changed json_loads deep_diff table_metadata None None)
            (have_row_format_delimiters_changed table_metadata None None)
      | Some ddl_row_format_segment \<Rightarrow>
          (let ddl_row_format_subclauses_list_sorted =
                 index_ddl_clauses ddl_row_format_segment ddl_row_format_subclauses_list
           in case segmentize_ddl_by_clause ddl_row_format_segment
                     ddl_row_format_subclauses_list_sorted of
                Inl e \<Rightarrow> Inl e
              | Inr ddl_row_format_sub_segments \<Rightarrow>
                  (case determine_row_format_type ddl_row_format_subclauses_list_sorted of
                     Inl e \<Rightarrow> Inl e
                   | Inr ddl_row_format_type \<Rightarrow>
                       if ddl_row_format_type = ROW_FORMAT_SERDE
                          \<or> ddl_row_format_type = ROW_FORMAT_WITH_SERDEPROPERTIES
                       then has_row_format_serde_changed json_loads deep_diff table_metadata
                              (Some ddl_row_format_sub_segments) (Some ddl_row_format_type)
                       else check_row_format_delimited_properties
                              (Some ddl_row_format_sub_segments) table_metadata)))"

section \<open>Change detector: file format, location, table properties\<close>

definition AVRO_STORAGE_FORMAT :: string where
  "AVRO_STORAGE_FORMAT = ''org.apache.hadoop.hive.ql.io.avro.AvroContainerInputFormat''"

definition ORC_STORAGE_FORMAT :: string where
  "ORC_STORAGE_FORMAT = ''org.apache.hadoop.hive.ql.io.orc.OrcInputFormat''"

definition PARQUET_STORAGE_FORMAT :: string where
  "PARQUET_STORAGE_FORMAT = ''org.apache.hadoop.hive.ql.io.parquet.MapredParquetInputFormat''"

definition RCFILE_STORAGE_FORMAT :: string where
  "RCFILE_STORAGE_FORMAT = ''org.apache.hadoop.hive.ql.io.RCFileInputFormat''"

definition SEQUENCEFILE_STORAGE_FORMAT :: string where
  "SEQUENCEFILE_STORAGE_FORMAT = ''org.apache.hadoop.mapred.SequenceFileInputFormat''"

definition TEXTFILE_STORAGE_FORMAT :: string where
  "TEXTFILE_STORAGE_FORMAT = ''org.apache.hadoop.mapred.TextInputFormat''"

definition stored_as_msg :: string where
  "stored_as_msg = ''DDL's STORED AS sub-clause does not match any of the expected values (e.g., parquet, textfile, etc.''"

text \<open>\<^verbatim>\<open>has_file_format_changed\<close> (app.py 1479-1604). Unpacking a split into four or into
  two names raises \<^verbatim>\<open>ValueError\<close> when the number of fields differs. In the branch
  without \<^verbatim>\<open>outputformat\<close> the name \<^verbatim>\<open>ddl_outputformat_value\<close> is never assigned
  (\<open>None\<close> below), and reading it raises \<^verbatim>\<open>UnboundLocalError\<close>.\<close>

definition has_file_format_changed :: "table_metadata \<Rightarrow> string list \<Rightarrow> py_error + bool" where
  "has_file_format_changed table_metadata ddl_segments =
     (let ddl_stored_as_segment = List.find (\<lambda>segment. startswith segment ''stored as'') ddl_segments;
          table_metadata_inputformat = lower (InputFormat (StorageDescriptor table_metadata));
          table_metadata_outputformat = lower (OutputFormat (StorageDescriptor table_metadata))
      in case ddl_stored_as_segment of
           Some segment \<Rightarrow>
             (let ddl_file_format = replace segment ''stored as '' []
              in if ddl_file_format = ''textfile'' then
                   Inr (table_metadata_inputformat \<noteq> lower TEXTFILE_STORAGE_FORMAT)
                 else if ddl_file_format = ''parquet'' then
                   Inr (table_metadata_inputformat \<noteq> lower PARQUET_STORAGE_FORMAT)
                 else if ddl_file_format = ''sequencefile'' then
                   Inr (table_metadata_inputformat \<noteq> lower SEQUENCEFILE_STORAGE_FORMAT)
                 else if ddl_file_format = ''rcfile'' then
                   Inr (table_metadata_inputformat \<noteq> lower RCFILE_STORAGE_FORMAT)
                 else if ddl_file_format = ''orc'' then
                   Inr (table_metadata_inputformat \<noteq> lower ORC_STORAGE_FORMAT)
                 else if ddl_file_format = ''avro'' then
                   Inr (table_metadata_inputformat \<noteq> lower AVRO_STORAGE_FORMAT)
                 else if startswith ddl_file_format ''inputformat'' then
                   (let unpacked =
                      (if py_find ddl_file_format ''outputformat'' \<ge> 0 then
                         (case py_split ddl_file_format '' '' of
                            [ddl_inputformat_key, ddl_inputformat_value,
                             ddl_outputformat_key, ddl_outputformat_value] \<Rightarrow>
                              Inr (strip_chars [SQ] ddl_inputformat_value,
                                   Some (strip_chars [SQ] ddl_outputformat_value))
                          | _ \<Rightarrow> Inl ValueError)
                       else
                         (case py_split ddl_file_format '' '' of
                            [ddl_inputformat_key, ddl_inputformat_value] \<Rightarrow>
                              Inr (strip_chars [SQ] ddl_inputformat_value, None)
                          | _ \<Rightarrow> Inl ValueError))
                    in case unpacked of
                         Inl e \<Rightarrow> Inl e
                       | Inr (ddl_inputformat_value, ddl_outputformat_value) \<Rightarrow>
                           if ddl_inputformat_value = table_metadata_inputformat then
                             (case ddl_outputformat_value of
                                None \<Rightarrow> Inl UnboundLocalError
                              | Some v \<Rightarrow> Inr (v \<noteq> table_metadata_outputformat))
                           else Inr True)
                 else Inl (PyException stored_as_msg))
         | None \<Rightarrow> Inr (table_metadata_inputformat \<noteq> lower TEXTFILE_STORAGE_FORMAT))"

text \<open>\<^verbatim>\<open>have_tblproperties_changed\<close> (app.py 1607-1699). The metadata keys are tested in
  lower case; the DDL keys are tested as the source writes each test, some on the key
  and some on its lower case.\<close>

definition metadata_property_listed :: "string \<Rightarrow> bool" where
  "metadata_property_listed key =
     (lower key = ''classification'' \<or> lower key = ''has_encrypted_data''
      \<or> lower key = ''orc.compress'' \<or> lower key = ''parquet.compress''
      \<or> lower key = ''write.compression'' \<or> startswith (lower key) ''projection.''
      \<or> lower key = ''skip.header.line.count''
      \<or> lower key = ''storage.location.template'')"

definition ddl_property_listed :: "string \<Rightarrow> bool" where
  "ddl_property_listed key =
     (key = ''classification'' \<or> lower key = ''has_encrypted_data''
      \<or> key = ''orc.compress'' \<or> lower key = ''parquet.compress''
      \<or> key = ''write.compression'' \<or> startswith key ''projection.''
      \<or> key = ''skip.header.line.count''
      \<or> lower key = ''storage.location.template'')"

definition have_tblproperties_changed ::
  "'v json_loads \<Rightarrow> 'v deep_diff \<Rightarrow> table_metadata \<Rightarrow> string list \<Rightarrow> py_error + bool" where
  "have_tblproperties_changed json_loads deep_diff table_metadata ddl_segments =
     (let ddl_tblproperties_segment =
            List.find (\<lambda>segment. startswith segment ''tblproperties'') ddl_segments;
          default_metadata_tblproperties = Parameters table_metadata;
          metadata_tblproperties =
            lower_dict (filter (\<lambda>(key, v). metadata_property_listed key)
                          default_metadata_tblproperties)
      in case ddl_tblproperties_segment of
           Some segment \<Rightarrow>
             (case second_field segment '' ('' of
                Inl e \<Rightarrow> Inl e
              | Inr props \<Rightarrow>
                  (let ddl_tblproperties = strip (strip_chars '')'' props);
                       ddl_tblproperties = ''{'' @ ddl_properties_json ddl_tblproperties @ ''}''
                   in case json_loads ddl_tblproperties of
                        Inl e \<Rightarrow> Inl e
                      | Inr loaded \<Rightarrow>
                          (let ddl_tblproperties =
                                 filter (\<lambda>(key, v). ddl_property_listed key) loaded
                           in if length ddl_tblproperties = 0 then
                                (if length metadata_tblproperties = 0 then Inr False
                                 else Inr True)
                              else
                                (if length metadata_tblproperties = 0 then Inr True
                                 else Inr (deep_diff ddl_tblproperties metadata_tblproperties
                                             > 0)))))
         | None \<Rightarrow>
             (if length metadata_tblproperties = 0 then Inr False else Inr True))"

definition location_missing_msg :: string where
  "location_missing_msg =
     ''The mandatory LOCATION clause is missing in the DDL - please correct the DDL first!''"

text \<open>\<^verbatim>\<open>has_table_location_changed\<close> (app.py 1702-1739).\<close>

definition has_table_location_changed :: "table_metadata \<Rightarrow> string list \<Rightarrow> py_error + bool" where
  "has_table_location_changed table_metadata ddl_segments =
     (let ddl_location_segment = List.find (\<lambda>segment. startswith segment ''location'') ddl_segments;
          metadata_location = lower (Location (StorageDescriptor table_metadata))
      in case ddl_location_segment of
           Some segment \<Rightarrow>
             (case py_split1 segment '' '' of
                [ddl_segment_key, ddl_segment_value] \<Rightarrow>
                  Inr (metadata_location \<noteq> strip_chars [SQ] ddl_segment_value)
              | _ \<Rightarrow> Inl ValueError)
         | None \<Rightarrow> Inl (PyException location_missing_msg))"

section \<open>Change detector: the whole comparison\<close>

text \<open>\<^verbatim>\<open>has_table_structure_changed\<close> (app.py 478-534).\<close>

definition has_table_structure_changed ::
  "'v json_loads \<Rightarrow> 'v deep_diff \<Rightarrow> string \<Rightarrow> table_metadata \<Rightarrow> py_error + bool" where
  "has_table_structure_changed json_loads deep_diff ddl_text table_metadata =
     (case split_ddl_columns_segment ddl_text of
        Inl e \<Rightarrow> Inl e
      | Inr (ddl_columns_segment, ddl_other_segments) \<Rightarrow>
          (let ddl_other_segments = strip ddl_other_segments;
               ddl_clause_list_sorted = index_ddl_clauses ddl_other_segments ddl_clauses_list
           in if have_columns_changed table_metadata ddl_columns_segment then Inr True
              else
                (case segmentize_ddl_by_clause ddl_other_segments ddl_clause_list_sorted of
                   Inl e \<Rightarrow> Inl e
                 | Inr ddl_segments \<Rightarrow>
                     return_true_or (has_table_comment_changed table_metadata ddl_segments)
                    (return_true_or (has_partitioning_changed table_metadata ddl_segments)
                    (return_true_or (has_clustering_changed table_metadata ddl_segments)
                    (return_true_or (has_row_format_changed json_loads deep_diff
                                       table_metadata ddl_segments)
                    (return_true_or (has_file_format_changed table_metadata ddl_segments)
                    (return_true_or (has_table_location_changed table_metadata ddl_segments)
                    (return_true_or (have_tblproperties_changed json_loads deep_diff
                                       table_metadata ddl_segments)
                    (Inr False))))))))))"

text \<open>The order of evaluation in the words of the specification: the comparators are
  taken one after the other, the first that reports a change (or raises) ends the
  comparison, and the verdict is \<open>False\<close> when the list is exhausted.\<close>

fun first_change :: "(py_error + bool) list \<Rightarrow> py_error + bool" where
  "first_change [] = Inr False"
| "first_change (Inl e # rest) = Inl e"
| "first_change (Inr b # rest) = (if b then Inr True else first_change rest)"

text \<open>The results of the eight comparators on one DDL, in the order in which
  \<^verbatim>\<open>has_table_structure_changed\<close> calls them.\<close>

definition comparator_results ::
  "'v json_loads \<Rightarrow> 'v deep_diff \<Rightarrow> table_metadata \<Rightarrow> string \<Rightarrow> string list
     \<Rightarrow> (py_error + bool) list" where
  "comparator_results json_loads deep_diff table_metadata ddl_columns_segment ddl_segments =
     [Inr (have_columns_changed table_metadata ddl_columns_segment),
      has_table_comment_changed table_metadata ddl_segments,
      has_partitioning_changed table_metadata ddl_segments,
      has_clustering_changed table_metadata ddl_segments,
      has_row_format_changed json_loads deep_diff table_metadata ddl_segments,
      has_file_format_changed table_metadata ddl_segments,
      has_table_location_changed table_metadata ddl_segments,
      have_tblproperties_changed json_loads deep_diff table_metadata ddl_segments]"

text \<open>The serde parameters that \<^verbatim>\<open>have_row_format_delimiters_changed\<close> treats as delimiter
  parameters when the DDL has no ROW FORMAT clause.\<close>

definition delimiter_keys :: "string list" where
  "delimiter_keys = [''escape.delim'', ''field.delim'', ''colelction.delim'', ''mapkey.delim'',
                     ''line.delim'', ''serialization.null.format'']"

section \<open>A sample table\<close>

text \<open>A table with two columns, no partitioning and no bucketing, the default serde with
  \<^verbatim>\<open>serialization.format = 1\<close> and an explicit pair of input and output formats; and two
  stand-ins for the library functions, for DDLs that never reach them.\<close>

definition example_metadata :: table_metadata where
  "example_metadata =
     \<lparr>StorageDescriptor =
        \<lparr>Columns = [\<lparr>Name = ''id'', Type = ''int'', Comment = None\<rparr>,
                    \<lparr>Name = ''name'', Type = ''string'', Comment = None\<rparr>],
         BucketColumns = [],
         NumberOfBuckets = 0,
         SerdeInfo = \<lparr>SerializationLibrary = ''org.apache.hadoop.hive.serde2.lazy.LazySimpleSerDe'',
                      SerdeParameters = [(''serialization.format'', ''1'')]\<rparr>,
         InputFormat = ''org.example.MyInputFormat'',
         OutputFormat = ''org.example.MyOutputFormat'',
         Location = ''s3://b/t''\<rparr>,
      PartitionKeys = [],
      Parameters = [(''EXTERNAL'', ''TRUE'')]\<rparr>"

definition no_json_loads :: "unit json_loads" where
  "no_json_loads text = Inr []"

definition no_deep_diff :: "unit deep_diff" where
  "no_deep_diff a b = 0"

section \<open>Properties of the column extractor\<close>

lemma update_fresh: "k \<notin> fst ` set al \<Longrightarrow> AList.update k v al = al @ [(k, v)]"
  by (induction al) auto

lemma scan_no_paren:
  "no_paren a \<Longrightarrow> scan_parens i (a @ rest) st = scan_parens (i + length a) rest st"
  by (induction a arbitrary: i) (auto simp: no_paren_def)

lemma scan_nested:
  assumes "nested d b" "length (stack st) = Suc d" "p_count st = int (Suc d)"
    and "\<forall>k\<in>set (stack st). k < i" "\<forall>k\<in>fst ` set (index_dict st). k < i"
    and "distinct (stack st)" "set (stack st) \<inter> fst ` set (index_dict st) = {}"
  shows "\<exists>st'. scan_parens i (b @ RPAR # c) st = Inr st' \<and> stack st' = []
           \<and> index_dict st' \<noteq> []
           \<and> last (index_dict st') = (last (stack st), i + length b)"
  using assms
proof (induction b arbitrary: i st d)
  case Nil
  then obtain s0 where S: "stack st = [s0]" by (cases "stack st") auto
  with Nil have "s0 \<notin> fst ` set (index_dict st)" by auto
  then have "AList.update s0 i (index_dict st) = index_dict st @ [(s0, i)]"
    by (rule update_fresh)
  with Nil S show ?case by simp
next
  case (Cons x xs)
  show ?case
  proof (cases "x = LPAR")
    case True
    let ?st = "st\<lparr>stack := i # stack st,
              start_pos := (if start_pos st = 0 then i else start_pos st),
              p_count := p_count st + 1\<rparr>"
    have ne: "stack st \<noteq> []" using Cons.prems(2) by auto
    have "\<exists>st'. scan_parens (Suc i) (xs @ RPAR # c) ?st = Inr st' \<and> stack st' = []
           \<and> index_dict st' \<noteq> []
           \<and> last (index_dict st') = (last (stack ?st), Suc i + length xs)"
      using Cons.prems True
      by (intro Cons.IH[where d = "Suc d"]) (auto simp: less_Suc_eq)
    with True ne show ?thesis by simp
  next
    case False
    show ?thesis
    proof (cases "x = RPAR")
      case True
      with Cons.prems(1) obtain k where d: "d = Suc k" and nk: "nested k xs"
        by (cases d) auto
      from Cons.prems(2) d obtain opened below where S: "stack st = opened # below"
        and lb: "length below = Suc k" by (cases "stack st") auto
      let ?st = "st\<lparr>stack := below,
                            index_dict := AList.update opened i (index_dict st),
                            p_count := p_count st - 1\<rparr>"
      have ne: "below \<noteq> []" using lb by auto
      have "\<exists>st'. scan_parens (Suc i) (xs @ RPAR # c) ?st = Inr st' \<and> stack st' = []
           \<and> index_dict st' \<noteq> []
           \<and> last (index_dict st') = (last (stack ?st), Suc i + length xs)"
        using Cons.prems S lb d nk
        by (intro Cons.IH[where d = k]) (auto simp: less_Suc_eq dom_update)
      with True S d Cons.prems(3) ne show ?thesis by simp
    next
      case nR: False
      have "\<exists>st'. scan_parens (Suc i) (xs @ RPAR # c) st = Inr st' \<and> stack st' = []
           \<and> index_dict st' \<noteq> []
           \<and> last (index_dict st') = (last (stack st), Suc i + length xs)"
        using Cons.prems False nR
        by (intro Cons.IH[where d = d]) (auto simp: less_Suc_eq)
      with False nR show ?thesis by simp
    qed
  qed
qed

lemma split_balanced_group:
  assumes "no_paren a" "nested 0 b"
  shows "split_ddl_columns_segment (a @ LPAR # b @ RPAR # c) = Inr (strip b, c)"
proof -
  let ?t = "a @ LPAR # b @ RPAR # c"
  let ?st = "scan_init\<lparr>stack := [length a], start_pos := (if start_pos scan_init = 0 then length a else start_pos scan_init), p_count := 1\<rparr>"
  have "scan_parens 0 ?t scan_init = scan_parens (length a) (LPAR # b @ RPAR # c) scan_init"
    using scan_no_paren[OF assms(1), of 0] by simp
  also have "\<dots> = scan_parens (Suc (length a)) (b @ RPAR # c) ?st"
    by (simp add: scan_init_def)
  finally have eq: "scan_parens 0 ?t scan_init = scan_parens (Suc (length a)) (b @ RPAR # c) ?st" .
  obtain st' where st': "scan_parens (Suc (length a)) (b @ RPAR # c) ?st = Inr st'"
    "stack st' = []" "index_dict st' \<noteq> []"
    "last (index_dict st') = (last (stack ?st), Suc (length a) + length b)"
    using scan_nested[OF assms(2), of ?st "Suc (length a)" c]
    by (auto simp: scan_init_def)
  have len: "length (a @ LPAR # b) = Suc (length a + length b)" by simp
  have b1: "slice_bound (length ?t) (int (length a) + 1) = Suc (length a)"
    by (simp add: slice_bound_def nat_add_distrib)
  have b2: "slice_bound (length ?t) (int (Suc (length a) + length b)) = Suc (length a + length b)"
    by (simp add: slice_bound_def)
  have b3: "slice_bound (length ?t) (int (Suc (length a) + length b) + 1)
              = Suc (Suc (length a + length b))"
    by (simp add: slice_bound_def nat_add_distrib)
  have d1: "drop (Suc (length a)) ?t = b @ RPAR # c" by simp
  have "?t = (a @ LPAR # b @ [RPAR]) @ c" by simp
  then have d3: "drop (Suc (Suc (length a + length b))) ?t = c"
    by (metis append_eq_conv_conj length_append length_Cons list.size(3) add_Suc_right add_0_right add_Suc)
  have s1: "py_slice ?t (int (length a) + 1) (int (Suc (length a) + length b)) = b"
    unfolding py_slice_def Let_def b1 b2 d1 by simp
  have s2: "py_slice_from ?t (int (Suc (length a) + length b) + 1) = c"
    unfolding py_slice_from_def b3 d3 ..
  show ?thesis
    using eq st' s1 s2
    by (simp add: split_ddl_columns_segment_def)
qed

lemma first_paren_None: "first_paren t = None \<longleftrightarrow> no_paren t"
  by (auto simp: first_paren_def no_paren_def find_None_iff is_paren_def)

lemma first_paren_Some:
  "first_paren t = Some p \<Longrightarrow>
     \<exists>a r. t = a @ p # r \<and> no_paren a \<and> is_paren p \<and> after_first_paren t = r"
proof (induction t)
  case Nil
  then show ?case by (simp add: first_paren_def)
next
  case (Cons x xs)
  show ?case
  proof (cases "is_paren x")
    case True
    with Cons.prems have "x = p" by (simp add: first_paren_def)
    with True show ?thesis
      by (intro exI[of _ "[]"] exI[of _ xs]) (simp add: no_paren_def after_first_paren_def)
  next
    case False
    with Cons.prems have "first_paren xs = Some p" by (simp add: first_paren_def)
    from Cons.IH[OF this] obtain a r where
      "xs = a @ p # r" "no_paren a" "is_paren p" "after_first_paren xs = r" by blast
    with False show ?thesis
      by (intro exI[of _ "x # a"] exI[of _ r])
         (auto simp: no_paren_def after_first_paren_def is_paren_def)
  qed
qed

lemma scan_unclosed:
  assumes "unclosed d b" "length (stack st) = Suc d" "p_count st = int (Suc d)"
  shows "\<exists>st'. scan_parens i b st = Inr st' \<and> stack st' \<noteq> []"
  using assms
proof (induction b arbitrary: i st d)
  case Nil
  then show ?case by auto
next
  case (Cons x xs)
  show ?case
  proof (cases "x = LPAR")
    case True
    let ?st = "st\<lparr>stack := i # stack st,
              start_pos := (if start_pos st = 0 then i else start_pos st),
              p_count := p_count st + 1\<rparr>"
    have "\<exists>st'. scan_parens (Suc i) xs ?st = Inr st' \<and> stack st' \<noteq> []"
      using Cons.prems True by (intro Cons.IH[where d = "Suc d"]) auto
    with True show ?thesis by simp
  next
    case False
    show ?thesis
    proof (cases "x = RPAR")
      case True
      with Cons.prems(1) obtain k where d: "d = Suc k" and nk: "unclosed k xs"
        by (cases d) auto
      from Cons.prems(2) d obtain opened below where S: "stack st = opened # below"
        and lb: "length below = Suc k" by (cases "stack st") auto
      let ?st = "st\<lparr>stack := below,
                            index_dict := AList.update opened i (index_dict st),
                            p_count := p_count st - 1\<rparr>"
      have "\<exists>st'. scan_parens (Suc i) xs ?st = Inr st' \<and> stack st' \<noteq> []"
        using Cons.prems S lb d nk by (intro Cons.IH[where d = k]) auto
      with True S d Cons.prems(3) show ?thesis by simp
    next
      case nR: False
      have "\<exists>st'. scan_parens (Suc i) xs st = Inr st' \<and> stack st' \<noteq> []"
        using Cons.prems False nR by (intro Cons.IH[where d = d]) auto
      with False nR show ?thesis by simp
    qed
  qed
qed

lemma closed_or_unclosed:
  "unclosed d r \<or> (\<exists>b c. r = b @ RPAR # c \<and> nested d b)"
proof (induction r arbitrary: d)
  case Nil
  then show ?case by simp
next
  case (Cons x xs)
  show ?case
  proof (cases "x = LPAR")
    case True
    from Cons.IH[of "Suc d"] show ?thesis
    proof
      assume "unclosed (Suc d) xs" with True show ?thesis by simp
    next
      assume "\<exists>b c. xs = b @ RPAR # c \<and> nested (Suc d) b"
      then obtain b c where "xs = b @ RPAR # c" "nested (Suc d) b" by blast
      with True have "x # xs = (x # b) @ RPAR # c \<and> nested d (x # b)" by simp
      then show ?thesis by blast
    qed
  next
    case False
    show ?thesis
    proof (cases "x = RPAR")
      case True
      show ?thesis
      proof (cases d)
        case 0
        with True have "x # xs = [] @ RPAR # xs \<and> nested d []" by simp
        then show ?thesis by blast
      next
        case (Suc k)
        from Cons.IH[of k] show ?thesis
        proof
          assume "unclosed k xs" with True Suc show ?thesis by simp
        next
          assume "\<exists>b c. xs = b @ RPAR # c \<and> nested k b"
          then obtain b c where "xs = b @ RPAR # c" "nested k b" by blast
          with True Suc have "x # xs = (x # b) @ RPAR # c \<and> nested d (x # b)" by simp
          then show ?thesis by blast
        qed
      qed
    next
      case nR: False
      from Cons.IH[of d] show ?thesis
      proof
        assume "unclosed d xs" with False nR show ?thesis by simp
      next
        assume "\<exists>b c. xs = b @ RPAR # c \<and> nested d b"
        then obtain b c where "xs = b @ RPAR # c" "nested d b" by blast
        with False nR have "x # xs = (x # b) @ RPAR # c \<and> nested d (x # b)" by simp
        then show ?thesis by blast
      qed
    qed
  qed
qed

lemma split_no_paren:
  assumes "no_paren t"
  shows "split_ddl_columns_segment t = Inl IndexError"
proof -
  have "scan_parens 0 t scan_init = Inr scan_init"
    using scan_no_paren[OF assms, of 0 "[]"] by simp
  then show ?thesis by (simp add: split_ddl_columns_segment_def scan_init_def)
qed

lemma split_close_first:
  assumes "no_paren a"
  shows "split_ddl_columns_segment (a @ RPAR # c) = Inl IndexError"
proof -
  have "scan_parens 0 (a @ RPAR # c) scan_init = Inl IndexError"
    using scan_no_paren[OF assms, of 0 "RPAR # c"] by (simp add: scan_init_def)
  then show ?thesis by (simp add: split_ddl_columns_segment_def)
qed

lemma split_unclosed:
  assumes "no_paren a" "unclosed 0 b"
  shows "split_ddl_columns_segment (a @ LPAR # b) = Inl (PyException unbalanced_msg)"
proof -
  let ?st = "scan_init\<lparr>stack := [length a], start_pos := (if start_pos scan_init = 0 then length a else start_pos scan_init), p_count := 1\<rparr>"
  have "scan_parens 0 (a @ LPAR # b) scan_init = scan_parens (Suc (length a)) b ?st"
    using scan_no_paren[OF assms(1), of 0 "LPAR # b"] by (simp add: scan_init_def)
  moreover obtain st' where "scan_parens (Suc (length a)) b ?st = Inr st'" "stack st' \<noteq> []"
    using scan_unclosed[OF assms(2), of ?st "Suc (length a)"] by (auto simp: scan_init_def)
  ultimately show ?thesis by (simp add: split_ddl_columns_segment_def)
qed

text \<open>
  Claim C3. When the text is \<open>a ( b ) c\<close> with no parenthesis in \<open>a\<close> and \<open>b\<close>
  balanced (so that the parentheses shown are the first outermost group), the extractor
  returns the whole of \<open>b\<close>, stripped, and the remainder \<open>c\<close>, however deeply \<open>b\<close>
  nests parentheses of its own. The witness is the column list
  \<^verbatim>\<open>(id int, amt decimal(10,2))\<close>.
\<close>

theorem split_ddl_columns_segment_balanced:
  assumes "no_paren a" and "nested 0 b"
  shows "split_ddl_columns_segment (a @ LPAR # b @ RPAR # c) = Inr (strip b, c)"
  using assms by (rule split_balanced_group)

theorem split_ddl_columns_segment_balanced_witness:
  "no_paren [] \<and> nested 0 ''id int, amt decimal(10,2)''
   \<and> split_ddl_columns_segment ''(id int, amt decimal(10,2))''
       = Inr (''id int, amt decimal(10,2)'', [])"
proof -
  have h1: "no_paren []" by (simp add: no_paren_def)
  have h2: "nested 0 ''id int, amt decimal(10,2)''" by simp
  have "strip ''id int, amt decimal(10,2)'' = ''id int, amt decimal(10,2)''"
    by (simp add: strip_def strip_by_def is_space_def)
  with split_ddl_columns_segment_balanced[OF h1 h2, of "[]"] h1 h2 show ?thesis by simp
qed

text \<open>
  Claim C8, as stated, fails: a text with no parenthesis at all is balanced, and the
  extractor raises on it (\<^verbatim>\<open>list(index_dict.items())[-1]\<close> on the empty dictionary).
\<close>

theorem split_ddl_columns_segment_no_paren_counterexample:
  "nested 0 ''create table t''
   \<and> split_ddl_columns_segment ''create table t'' = Inl IndexError"
  by (simp add: split_ddl_columns_segment_def scan_init_def)

text \<open>
  Claim C8, amended. The extractor raises exactly when the text has no balanced first
  outermost group: \<^verbatim>\<open>IndexError\<close> when the first parenthesis met is a closing one or
  when the text has no parenthesis at all; the "unbalanced parentheses" exception when
  the first parenthesis opens a group that the rest of the text never closes. In every
  other case, that is when the first parenthesis opens a group that is closed, it returns
  normally.
\<close>

theorem split_ddl_columns_segment_raises_iff:
  "(split_ddl_columns_segment t = Inl IndexError \<longleftrightarrow> first_paren t \<noteq> Some LPAR)
   \<and> (split_ddl_columns_segment t = Inl (PyException unbalanced_msg) \<longleftrightarrow>
        first_paren t = Some LPAR \<and> unclosed 0 (after_first_paren t))
   \<and> ((\<exists>seg rest. split_ddl_columns_segment t = Inr (seg, rest)) \<longleftrightarrow>
        first_paren t = Some LPAR \<and> \<not> unclosed 0 (after_first_paren t))"
proof (cases "first_paren t")
  case None
  then have "no_paren t" by (simp add: first_paren_None)
  from split_no_paren[OF this] None show ?thesis by simp
next
  case (Some p)
  from first_paren_Some[OF this] obtain a r where
    t: "t = a @ p # r" and a: "no_paren a" and p: "is_paren p" and r: "after_first_paren t = r"
    by blast
  show ?thesis
  proof (cases "p = RPAR")
    case True
    with Some t split_close_first[OF a] show ?thesis by simp
  next
    case False
    with p have L: "p = LPAR" by (simp add: is_paren_def)
    show ?thesis
    proof (cases "unclosed 0 r")
      case True
      with split_unclosed[OF a True] t L Some r show ?thesis by simp
    next
      case False
      with closed_or_unclosed[of 0 r] obtain b c where "r = b @ RPAR # c" "nested 0 b" by blast
      with split_balanced_group[OF a this(2), of c] t L Some r False show ?thesis by simp
    qed
  qed
qed

theorem split_ddl_columns_segment_raises_iff_witness:
  "split_ddl_columns_segment ''t (a int, b decimal(10,2)'' = Inl (PyException unbalanced_msg)
   \<and> split_ddl_columns_segment ''t ) a int ('' = Inl IndexError
   \<and> (\<exists>seg rest. split_ddl_columns_segment ''t (a int) x'' = Inr (seg, rest))"
proof -
  have "first_paren ''t (a int, b decimal(10,2)'' = Some LPAR"
    and "unclosed 0 (after_first_paren ''t (a int, b decimal(10,2)'')"
    and "first_paren ''t ) a int ('' \<noteq> Some LPAR"
    and "first_paren ''t (a int) x'' = Some LPAR"
    and "\<not> unclosed 0 (after_first_paren ''t (a int) x'')"
    by (simp_all add: first_paren_def after_first_paren_def is_paren_def)
  then show ?thesis
    using split_ddl_columns_segment_raises_iff[of "''t (a int, b decimal(10,2)''"]
      split_ddl_columns_segment_raises_iff[of "''t ) a int (''"]
      split_ddl_columns_segment_raises_iff[of "''t (a int) x''"]
    by blast
qed

section \<open>Properties of the clause indexer and segmenter\<close>

lemma py_find_range: "py_find s sub = -1 \<or> (0 \<le> py_find s sub \<and> py_find s sub \<le> int (length s))"
  by (induction s) (auto simp: Let_def)

lemma index_clause_range:
  "Index (index_clause t c) = NOT_FOUND
   \<or> (0 \<le> Index (index_clause t c) \<and> Index (index_clause t c) \<le> int (length t))"
  using py_find_range[of t "strip c"]
  by (auto simp: index_clause_def Let_def NOT_FOUND_def)

lemma index_ddl_clauses_set:
  "set (index_ddl_clauses t cat) = index_clause t ` set cat"
  by (simp add: index_ddl_clauses_def)

lemma index_ddl_clauses_range:
  assumes "e \<in> set (index_ddl_clauses t cat)"
  shows "Index e = NOT_FOUND \<or> (0 \<le> Index e \<and> Index e \<le> int (length t))"
  using assms index_clause_range by (auto simp: index_ddl_clauses_set)

lemma index_ddl_clauses_sorted: "sorted (map Index (index_ddl_clauses t cat))"
  by (simp add: index_ddl_clauses_def)

lemma index_ddl_clauses_length: "length (index_ddl_clauses t cat) = length cat"
  by (simp add: index_ddl_clauses_def)

text \<open>
  Claim C5, as stated, fails: \<^verbatim>\<open>NOT_FOUND\<close> is \<open>-1\<close> and the sort is ascending, so the
  markers that are not found come first. For a remainder that holds only a LOCATION
  clause the six absent markers precede the one that is present.
\<close>

theorem index_ddl_clauses_not_found_last_counterexample:
  "map Index (index_ddl_clauses ''location 's3://b/t' '' ddl_clauses_list)
     = [NOT_FOUND, NOT_FOUND, NOT_FOUND, NOT_FOUND, NOT_FOUND, NOT_FOUND, 0]"
  by code_simp

text \<open>
  Claim C5, amended. The returned list is sorted ascending by the recorded index, and a
  marker that is not found (index \<open>-1\<close>) is never preceded by a marker that is found:
  the not-found markers are first, the found ones follow in the order of their offsets.
\<close>

theorem index_ddl_clauses_not_found_first:
  "sorted (map Index (index_ddl_clauses t cat))
   \<and> (\<forall>i j. i < j \<and> j < length (index_ddl_clauses t cat)
         \<and> Index (index_ddl_clauses t cat ! j) = NOT_FOUND
         \<longrightarrow> Index (index_ddl_clauses t cat ! i) = NOT_FOUND)"
proof (intro conjI allI impI)
  show "sorted (map Index (index_ddl_clauses t cat))" by (rule index_ddl_clauses_sorted)
next
  fix i j
  let ?r = "index_ddl_clauses t cat"
  assume a: "i < j \<and> j < length ?r \<and> Index (?r ! j) = NOT_FOUND"
  then have "map Index ?r ! i \<le> map Index ?r ! j"
    using index_ddl_clauses_sorted[of t cat] by (intro sorted_nth_mono) auto
  with a have le: "Index (?r ! i) \<le> NOT_FOUND" by simp
  from a have "?r ! i \<in> set ?r" by simp
  from index_ddl_clauses_range[OF this] le show "Index (?r ! i) = NOT_FOUND"
    by (auto simp: NOT_FOUND_def)
qed

theorem index_ddl_clauses_not_found_first_witness:
  "(0::nat) < 5 \<and> 5 < length (index_ddl_clauses ''location 's3://b/t' '' ddl_clauses_list)
   \<and> Index (index_ddl_clauses ''location 's3://b/t' '' ddl_clauses_list ! 5) = NOT_FOUND
   \<and> Index (index_ddl_clauses ''location 's3://b/t' '' ddl_clauses_list ! 0) = NOT_FOUND"
proof -
  let ?r = "index_ddl_clauses ''location 's3://b/t' '' ddl_clauses_list"
  have len: "length ?r = 7" by (simp add: index_ddl_clauses_length ddl_clauses_list_def)
  have m: "map Index ?r = [-1, -1, -1, -1, -1, -1, 0]" by code_simp
  have "map Index ?r ! 5 = NOT_FOUND" unfolding m by (simp add: NOT_FOUND_def)
  then have h: "Index (?r ! 5) = NOT_FOUND" using len by simp
  from index_ddl_clauses_not_found_first[of "''location 's3://b/t' ''" ddl_clauses_list]
  have "(0::nat) < 5 \<and> 5 < length ?r \<and> Index (?r ! 5) = NOT_FOUND \<longrightarrow> Index (?r ! 0) = NOT_FOUND"
    by blast
  with h len show ?thesis by simp
qed

lemma adjacent_map:
  "map (\<lambda>i. g (xs ! i) (xs ! (i + 1))) [0 ..< length xs - 1] = map (\<lambda>(x, y). g x y) (zip xs (tl xs))"
  by (rule nth_equalityI) (auto simp: nth_tl)

text \<open>The segments the loop and the final step produce, over adjacent entries.\<close>

lemma segments_of_sorted:
  assumes "cl \<noteq> []" "sorted (map Index cl)" "\<forall>e\<in>set cl. NOT_FOUND \<le> Index e"
  shows "concat (map (\<lambda>(x, y). if Index x \<noteq> NOT_FOUND then [f (Index x) (Index y)] else [])
                     (zip cl (tl cl)))
           @ (if Index (last cl) \<noteq> NOT_FOUND then [f (Index (last cl)) z] else [])
         = map (\<lambda>(a, b). f a b) (zip (present_offsets cl) (tl (present_offsets cl) @ [z]))"
  using assms
proof (induction cl rule: induct_list012)
  case 1
  then show ?case by simp
next
  case (2 x)
  then show ?case by (simp add: present_offsets_def)
next
  case (3 x y zs)
  have IH: "concat (map (\<lambda>(x, y). if Index x \<noteq> NOT_FOUND then [f (Index x) (Index y)] else [])
                     (zip (y # zs) (tl (y # zs))))
           @ (if Index (last (y # zs)) \<noteq> NOT_FOUND then [f (Index (last (y # zs))) z] else [])
         = map (\<lambda>(a, b). f a b) (zip (present_offsets (y # zs)) (tl (present_offsets (y # zs)) @ [z]))"
    using 3 by simp
  let ?g = "\<lambda>(x, y). if Index x \<noteq> NOT_FOUND then [f (Index x) (Index y)] else []"
  have la: "last (x # y # zs) = last (y # zs)" by simp
  show ?case
  proof (cases "Index x = NOT_FOUND")
    case True
    have po: "present_offsets (x # y # zs) = present_offsets (y # zs)"
      using True by (simp add: present_offsets_def)
    have lhs: "concat (map ?g (zip (x # y # zs) (tl (x # y # zs))))
               = concat (map ?g (zip (y # zs) (tl (y # zs))))"
      using True by simp
    show ?thesis unfolding po lhs la by (rule IH)
  next
    case False
    with 3 have "NOT_FOUND < Index x" by force
    moreover from 3 have "Index x \<le> Index y" by simp
    ultimately have y: "Index y \<noteq> NOT_FOUND" by simp
    have po: "present_offsets (x # y # zs) = Index x # present_offsets (y # zs)"
      using False by (simp add: present_offsets_def)
    have poy: "present_offsets (y # zs) = Index y # present_offsets zs"
      using y by (simp add: present_offsets_def)
    have lhs: "concat (map ?g (zip (x # y # zs) (tl (x # y # zs))))
               = f (Index x) (Index y) # concat (map ?g (zip (y # zs) (tl (y # zs))))"
      using False by simp
    have "map (\<lambda>(a, b). f a b)
            (zip (present_offsets (x # y # zs)) (tl (present_offsets (x # y # zs)) @ [z]))
          = f (Index x) (Index y)
            # map (\<lambda>(a, b). f a b)
                (zip (present_offsets (y # zs)) (tl (present_offsets (y # zs)) @ [z]))"
      unfolding po unfolding poy by simp
    then show ?thesis unfolding lhs la using IH by simp
  qed
qed

lemma segmentize_sorted:
  assumes "2 \<le> length cl" "sorted (map Index cl)" "\<forall>e\<in>set cl. NOT_FOUND \<le> Index e"
  shows "segmentize_ddl_by_clause t cl
         = Inr (map (\<lambda>(a, b). strip (py_slice t a b)) (segment_bounds t cl))"
proof -
  from assms(1) have ne: "cl \<noteq> []" by auto
  then have l: "cl ! (length cl - 1) = last cl" by (simp add: last_conv_nth)
  let ?g = "\<lambda>x y. if Index x \<noteq> NOT_FOUND then [strip (py_slice t (Index x) (Index y))] else []"
  have "map (\<lambda>i. ?g (cl ! i) (cl ! (i + 1))) [0 ..< length cl - 1]
        = map (\<lambda>(x, y). ?g x y) (zip cl (tl cl))" by (rule adjacent_map)
  then have loop: "concat (map (\<lambda>i. if Index (cl ! i) \<noteq> NOT_FOUND
              then [strip (py_slice t (Index (cl ! i)) (Index (cl ! (i + 1))))]
              else []) [0 ..< length cl - 1])
     = concat (map (\<lambda>(x, y). ?g x y) (zip cl (tl cl)))" by simp
  from segments_of_sorted[OF ne assms(2,3), of "\<lambda>a b. strip (py_slice t a b)" "int (length t)"]
  show ?thesis
    using assms(1) unfolding segmentize_ddl_by_clause_def Let_def loop l segment_bounds_def
    by (auto split: if_splits)
qed

lemma zip_shift_contiguous:
  assumes "Suc k < length xs"
  shows "snd (zip xs (tl xs @ [z]) ! k) = fst (zip xs (tl xs @ [z]) ! Suc k)"
  using assms by (auto simp: nth_append nth_tl)

lemma zip_shift_last:
  assumes "xs \<noteq> []"
  shows "snd (last (zip xs (tl xs @ [z]))) = z"
proof -
  have len: "length (zip xs (tl xs @ [z])) = length xs" using assms by simp
  then have "zip xs (tl xs @ [z]) \<noteq> []" using assms by auto
  then have "last (zip xs (tl xs @ [z])) = zip xs (tl xs @ [z]) ! (length xs - 1)"
    using len by (simp add: last_conv_nth)
  then show ?thesis using assms by (simp add: nth_append)
qed

lemma zip_shift_sorted_bounds:
  assumes "sorted xs" "\<forall>x\<in>set xs. lo \<le> x \<and> x \<le> z" "(a, b) \<in> set (zip xs (tl xs @ [z]))"
  shows "lo \<le> a \<and> a \<le> b \<and> b \<le> (z::int)"
proof -
  from assms(3) obtain k where k: "k < length xs" "a = xs ! k" "b = (tl xs @ [z]) ! k"
    by (auto simp: in_set_zip)
  show ?thesis
  proof (cases "Suc k < length xs")
    case True
    then have "b = xs ! Suc k" using k by (auto simp: nth_append nth_tl)
    moreover have "xs ! k \<le> xs ! Suc k" using assms(1) True by (intro sorted_nth_mono) auto
    moreover have "xs ! k \<in> set xs" "xs ! Suc k \<in> set xs" using True k by auto
    ultimately show ?thesis using k assms(2) by auto
  next
    case False
    then have "b = z" using k by (auto simp: nth_append)
    moreover have "xs ! k \<in> set xs" using k by auto
    ultimately show ?thesis using k assms(2) by auto
  qed
qed

lemma present_offsets_sorted: "sorted (map Index cl) \<Longrightarrow> sorted (present_offsets cl)"
  by (simp add: present_offsets_def sorted_wrt_filter)

text \<open>
  Claim C6. For a catalog of at least two markers, the segments are the stripped slices
  \<open>text[a:b]\<close> over \<open>segment_bounds\<close>: one pair per marker that was found and none for
  a marker that was not; every pair lies inside the text with \<open>a \<le> b\<close>; each pair ends
  where the next one starts (contiguous, hence not overlapping); the starts are in
  ascending order; and the last pair ends at the end of the text.
\<close>

theorem segmentize_ddl_by_clause_contiguous:
  fixes t :: string and clauses_list :: "string list"
  assumes "2 \<le> length clauses_list"
  defines "cl \<equiv> index_ddl_clauses t clauses_list"
  defines "bs \<equiv> segment_bounds t cl"
  shows "segmentize_ddl_by_clause t cl = Inr (map (\<lambda>(a, b). strip (py_slice t a b)) bs)
    \<and> length bs = length (filter (\<lambda>e. Index e \<noteq> NOT_FOUND) cl)
    \<and> (\<forall>(a, b)\<in>set bs. 0 \<le> a \<and> a \<le> b \<and> b \<le> int (length t))
    \<and> (\<forall>k. Suc k < length bs \<longrightarrow> snd (bs ! k) = fst (bs ! Suc k))
    \<and> sorted (map fst bs)
    \<and> (bs \<noteq> [] \<longrightarrow> snd (last bs) = int (length t))"
proof -
  let ?offs = "present_offsets cl"
  have srt: "sorted (map Index cl)" unfolding cl_def by (rule index_ddl_clauses_sorted)
  have rng: "\<forall>e\<in>set cl. Index e = NOT_FOUND \<or> (0 \<le> Index e \<and> Index e \<le> int (length t))"
    unfolding cl_def using index_ddl_clauses_range by blast
  then have lb: "\<forall>e\<in>set cl. NOT_FOUND \<le> Index e" by (auto simp: NOT_FOUND_def)
  have len: "2 \<le> length cl" using assms(1) by (simp add: cl_def index_ddl_clauses_length)
  have lbs: "length bs = length ?offs" by (simp add: bs_def segment_bounds_def)
  have offs_rng: "\<forall>x\<in>set ?offs. 0 \<le> x \<and> x \<le> int (length t)"
    using rng by (auto simp: present_offsets_def)
  have offs_srt: "sorted ?offs" using srt by (rule present_offsets_sorted)
  have c1: "segmentize_ddl_by_clause t cl = Inr (map (\<lambda>(a, b). strip (py_slice t a b)) bs)"
    unfolding bs_def using len srt lb by (rule segmentize_sorted)
  have c2: "length bs = length (filter (\<lambda>e. Index e \<noteq> NOT_FOUND) cl)"
    unfolding lbs present_offsets_def by (simp add: filter_map comp_def)
  have c3: "\<forall>(a, b)\<in>set bs. 0 \<le> a \<and> a \<le> b \<and> b \<le> int (length t)"
    unfolding bs_def segment_bounds_def
    using zip_shift_sorted_bounds[OF offs_srt offs_rng] by blast
  have c4: "\<forall>k. Suc k < length bs \<longrightarrow> snd (bs ! k) = fst (bs ! Suc k)"
    unfolding lbs unfolding bs_def segment_bounds_def
    by (intro allI impI zip_shift_contiguous)
  have "map fst bs = ?offs" unfolding bs_def segment_bounds_def
    by (cases ?offs) (simp_all add: map_fst_zip_take)
  then have c5: "sorted (map fst bs)" using offs_srt by simp
  have c6: "bs \<noteq> [] \<longrightarrow> snd (last bs) = int (length t)"
  proof
    assume "bs \<noteq> []"
    then have "?offs \<noteq> []" using lbs by auto
    then show "snd (last bs) = int (length t)"
      unfolding bs_def segment_bounds_def by (rule zip_shift_last)
  qed
  from c1 c2 c3 c4 c5 c6 show ?thesis by blast
qed

theorem segmentize_ddl_by_clause_contiguous_witness:
  "2 \<le> length ddl_clauses_list
   \<and> segment_bounds ''stored as parquet location 's3://b/t' ''
        (index_ddl_clauses ''stored as parquet location 's3://b/t' '' ddl_clauses_list)
       = [(0, 18), (18, 38)]
   \<and> segmentize_ddl_by_clause ''stored as parquet location 's3://b/t' ''
        (index_ddl_clauses ''stored as parquet location 's3://b/t' '' ddl_clauses_list)
       = Inr [''stored as parquet'', ''location 's3://b/t'' @ [SQ]]"
proof -
  let ?t = "''stored as parquet location 's3://b/t' ''"
  have h: "2 \<le> length ddl_clauses_list" by (simp add: ddl_clauses_list_def)
  have b: "segment_bounds ?t (index_ddl_clauses ?t ddl_clauses_list) = [(0, 18), (18, 38)]"
    by code_simp
  have s: "map (\<lambda>(a, b). strip (py_slice ?t a b)) [(0, 18), (18, 38)]
           = [''stored as parquet'', ''location 's3://b/t'' @ [SQ]]"
    by code_simp
  from segmentize_ddl_by_clause_contiguous[OF h, of ?t]
  have "segmentize_ddl_by_clause ?t (index_ddl_clauses ?t ddl_clauses_list)
        = Inr (map (\<lambda>(a, b). strip (py_slice ?t a b))
                 (segment_bounds ?t (index_ddl_clauses ?t ddl_clauses_list)))"
    by blast
  with h b s show ?thesis by simp
qed

section \<open>Properties of the row-format classifier\<close>

lemma row_format_type_loop_first_terminal:
  "row_format_type_loop cl ty =
     (case first_terminal cl of
        Some e \<Rightarrow> Some (if Clause e = ''with serdeproperties ('' then ROW_FORMAT_WITH_SERDEPROPERTIES
                         else ROW_FORMAT_DELIMITED)
      | None \<Rightarrow> if present (''serde '' @ [SQ]) cl then Some ROW_FORMAT_SERDE else ty)"
proof (induction cl arbitrary: ty)
  case Nil
  then show ?case by (simp add: first_terminal_def present_def)
next
  case (Cons e es)
  show ?case
    unfolding row_format_type_loop.simps Cons.IH
    by (auto simp: first_terminal_def present_def split: option.splits)
qed

lemma first_terminal_None:
  "first_terminal cl = None \<longleftrightarrow>
     \<not> present ''with serdeproperties ('' cl \<and> \<not> present ''delimited'' cl"
  by (auto simp: first_terminal_def present_def find_None_iff)

lemma first_terminal_with:
  assumes "present ''with serdeproperties ('' cl" "\<not> present ''delimited'' cl"
  shows "\<exists>e. first_terminal cl = Some e \<and> Clause e = ''with serdeproperties (''"
proof -
  from assms(1) have "first_terminal cl \<noteq> None" by (simp add: first_terminal_None)
  then obtain e where e: "first_terminal cl = Some e" by auto
  then have "e \<in> set cl" "Index e \<noteq> NOT_FOUND"
    "Clause e = ''with serdeproperties ('' \<or> Clause e = ''delimited''"
    by (auto simp: first_terminal_def find_Some_iff)
  with assms(2) e show ?thesis by (auto simp: present_def)
qed

lemma first_terminal_delimited:
  assumes "present ''delimited'' cl" "\<not> present ''with serdeproperties ('' cl"
  shows "\<exists>e. first_terminal cl = Some e \<and> Clause e = ''delimited''"
proof -
  from assms(1) have "first_terminal cl \<noteq> None" by (simp add: first_terminal_None)
  then obtain e where e: "first_terminal cl = Some e" by auto
  then have "e \<in> set cl" "Index e \<noteq> NOT_FOUND"
    "Clause e = ''with serdeproperties ('' \<or> Clause e = ''delimited''"
    by (auto simp: first_terminal_def find_Some_iff)
  with assms(2) e show ?thesis by (auto simp: present_def)
qed

text \<open>
  What the classifier does guarantee. The comment at app.py 92-93 says that ROW FORMAT
  DELIMITED and ROW FORMAT SERDE exclude each other. On an index where they do, the
  answer is the one expected: SERDE_WITH_PROPERTIES when \<^verbatim>\<open>with serdeproperties (\<close> is
  present and \<^verbatim>\<open>delimited\<close> is not (whether or not \<^verbatim>\<open>serde '\<close> is), SERDE when \<^verbatim>\<open>serde '\<close>
  alone is present, DELIMITED when \<^verbatim>\<open>delimited\<close> alone is present, and the exception when
  none of the three is.
\<close>

lemma determine_row_format_type_exclusive:
  "(present ''with serdeproperties ('' cl \<and> \<not> present ''delimited'' cl
        \<longrightarrow> determine_row_format_type cl = Inr ROW_FORMAT_WITH_SERDEPROPERTIES)
   \<and> (present (''serde '' @ [SQ]) cl \<and> \<not> present ''with serdeproperties ('' cl
        \<and> \<not> present ''delimited'' cl
        \<longrightarrow> determine_row_format_type cl = Inr ROW_FORMAT_SERDE)
   \<and> (present ''delimited'' cl \<and> \<not> present ''with serdeproperties ('' cl
        \<and> \<not> present (''serde '' @ [SQ]) cl
        \<longrightarrow> determine_row_format_type cl = Inr ROW_FORMAT_DELIMITED)
   \<and> (\<not> present ''with serdeproperties ('' cl \<and> \<not> present (''serde '' @ [SQ]) cl
        \<and> \<not> present ''delimited'' cl
        \<longrightarrow> determine_row_format_type cl = Inl (PyException no_row_format_msg))"
proof -
  have eq: "determine_row_format_type cl =
     (case first_terminal cl of
        Some e \<Rightarrow> Inr (if Clause e = ''with serdeproperties ('' then ROW_FORMAT_WITH_SERDEPROPERTIES
                        else ROW_FORMAT_DELIMITED)
      | None \<Rightarrow> if present (''serde '' @ [SQ]) cl then Inr ROW_FORMAT_SERDE
                else Inl (PyException no_row_format_msg))"
    unfolding determine_row_format_type_def row_format_type_loop_first_terminal
    by (simp split: option.splits)
  have w: "present ''with serdeproperties ('' cl \<and> \<not> present ''delimited'' cl
        \<longrightarrow> determine_row_format_type cl = Inr ROW_FORMAT_WITH_SERDEPROPERTIES"
    using first_terminal_with[of cl] unfolding eq by auto
  have d: "present ''delimited'' cl \<and> \<not> present ''with serdeproperties ('' cl
        \<longrightarrow> determine_row_format_type cl = Inr ROW_FORMAT_DELIMITED"
    using first_terminal_delimited[of cl] unfolding eq by auto
  have n: "\<not> present ''with serdeproperties ('' cl \<and> \<not> present ''delimited'' cl
        \<longrightarrow> first_terminal cl = None"
    by (simp add: first_terminal_None)
  from eq w d n show ?thesis by simp
qed

text \<open>
  Claim C7. The classifier is meant to answer SERDE_WITH_PROPERTIES whenever
  \<^verbatim>\<open>with serdeproperties (\<close> is present, and SERDE when \<^verbatim>\<open>serde '\<close> is present without it
  (docstring of \<^verbatim>\<open>determine_row_format_type\<close>, comment at app.py 1004). The loop walks the
  index in offset order and also stops at a present \<^verbatim>\<open>delimited\<close>, which is found by plain
  substring search. On a ROW FORMAT SERDE clause whose class name contains the word
  \<^verbatim>\<open>delimited\<close>, that entry comes before \<^verbatim>\<open>with serdeproperties (\<close> and the classifier
  answers DELIMITED, with the serde properties and without them.
\<close>

theorem determine_row_format_type_delimited_in_serde_name:
  "present ''with serdeproperties (''
     (index_ddl_clauses ''row format serde 'org.x.delimited' with serdeproperties ('a'='b')''
        ddl_row_format_subclauses_list)
   \<and> determine_row_format_type
        (index_ddl_clauses ''row format serde 'org.x.delimited' with serdeproperties ('a'='b')''
           ddl_row_format_subclauses_list)
       = Inr ROW_FORMAT_DELIMITED
   \<and> ROW_FORMAT_DELIMITED \<noteq> ROW_FORMAT_WITH_SERDEPROPERTIES
   \<and> present (''serde '' @ [SQ])
        (index_ddl_clauses (''row format serde 'org.x.delimitedserde'' @ [SQ])
           ddl_row_format_subclauses_list)
   \<and> \<not> present ''with serdeproperties (''
        (index_ddl_clauses (''row format serde 'org.x.delimitedserde'' @ [SQ])
           ddl_row_format_subclauses_list)
   \<and> determine_row_format_type
        (index_ddl_clauses (''row format serde 'org.x.delimitedserde'' @ [SQ])
           ddl_row_format_subclauses_list)
       = Inr ROW_FORMAT_DELIMITED
   \<and> ROW_FORMAT_DELIMITED \<noteq> ROW_FORMAT_SERDE"
  by code_simp

text \<open>
  The consequence for the comparison: against the sample table, whose serde is
  LazySimpleSerDe, the DDL with the serde \<^verbatim>\<open>org.x.delimited\<close> and its properties is treated
  as ROW FORMAT DELIMITED without properties, and no change is reported.
\<close>

lemma has_row_format_changed_misses_serde:
  "has_row_format_changed no_json_loads no_deep_diff example_metadata
     [''row format serde 'org.x.delimited' with serdeproperties ('a'='b')'',
      ''location 's3://b/t'' @ [SQ]]
     = Inr False"
  by code_simp

section \<open>Properties of the text normalizer\<close>

lemma replace_set: "set (replace s old new) \<subseteq> set s \<union> set new"
proof (induction s old new rule: replace.induct)
  case (1 old new)
  then show ?case by auto
next
  case (2 c cs old new)
  show ?case
  proof (cases "old = []")
    case True
    then show ?thesis by auto
  next
    case False
    show ?thesis
    proof (cases "startswith (c # cs) old")
      case True
      have "set (drop (length old) (c # cs)) \<subseteq> set (c # cs)" by (rule set_drop_subset)
      with 2 False True show ?thesis by auto
    next
      case nS: False
      with 2 False show ?thesis by auto
    qed
  qed
qed

lemma replace_char_gone:
  "c \<notin> set new \<Longrightarrow> c \<notin> set (replace s [c] new)"
proof (induction s "[c]" new rule: replace.induct)
  case (1 new)
  then show ?case by simp
next
  case (2 x xs new)
  show ?case
  proof (cases "x = c")
    case True
    with 2 show ?thesis by simp
  next
    case False
    with 2 show ?thesis by simp
  qed
qed

lemma collapse_spaces_no_double: "\<not> contains (collapse_spaces s) ''  ''"
proof (induction s rule: collapse_spaces.induct)
  case (1 s)
  show ?case
  proof (cases "contains s ''  ''")
    case True
    with 1 show ?thesis by (simp add: collapse_spaces.simps[of s])
  next
    case False
    then show ?thesis by (simp add: collapse_spaces.simps[of s])
  qed
qed

lemma collapse_spaces_set: "set (collapse_spaces s) \<subseteq> set s \<union> {CHR '' '', CHR '',''}"
proof (induction s rule: collapse_spaces.induct)
  case (1 s)
  show ?case
  proof (cases "contains s ''  ''")
    case True
    let ?r = "replace (replace s ''  '' '' '') '' ,'' '',''"
    have "set ?r \<subseteq> set (replace s ''  '' '' '') \<union> set '',''" by (rule replace_set)
    moreover have "set (replace s ''  '' '' '') \<subseteq> set s \<union> set '' ''" by (rule replace_set)
    ultimately have "set ?r \<subseteq> set s \<union> {CHR '' '', CHR '',''}" by auto
    moreover have "set (collapse_spaces ?r) \<subseteq> set ?r \<union> {CHR '' '', CHR '',''}"
      using 1 True by simp
    ultimately show ?thesis using True by (auto simp: collapse_spaces.simps[of s])
  next
    case False
    then show ?thesis by (auto simp: collapse_spaces.simps[of s])
  qed
qed

lemma lower_char_not_upper: "\<not> is_upper (lower_char c)"
proof (cases "is_upper c")
  case True
  then have "(of_char c :: nat) \<le> 222" by (auto simp: is_upper_def Let_def)
  then have "of_char (char_of ((of_char c :: nat) + 32)) = (of_char c :: nat) + 32"
    by (simp add: of_char_of take_bit_nat_eq_self_iff)
  with True show ?thesis by (auto simp: lower_char_def is_upper_def Let_def)
next
  case False
  then show ?thesis by (simp add: lower_char_def)
qed

lemma lower_idem: "lower (lower s) = lower s"
  using lower_char_not_upper by (simp add: lower_def lower_char_def)

lemma lower_char_low:
  assumes "(of_char c :: nat) < 97" and "lower_char x = c"
  shows "x = c"
proof (cases "is_upper x")
  case True
  then have "(of_char x :: nat) \<le> 222" "(65 :: nat) \<le> of_char x"
    by (auto simp: is_upper_def Let_def)
  then have "(of_char (lower_char x) :: nat) = of_char x + 32" "(97 :: nat) \<le> of_char x + 32"
    using True by (simp_all add: lower_char_def of_char_of take_bit_nat_eq_self_iff)
  with assms show ?thesis by auto
next
  case False
  with assms(2) show ?thesis by (simp add: lower_char_def)
qed

lemma lower_keeps_absent:
  assumes "(of_char c :: nat) < 97" and "c \<notin> set s"
  shows "c \<notin> set (lower s)"
proof
  assume "c \<in> set (lower s)"
  then obtain x where "x \<in> set s" "lower_char x = c" by (auto simp: lower_def)
  with lower_char_low[OF assms(1) this(2)] assms(2) show False by simp
qed

text \<open>
  What the normalizer does guarantee: the normalized text has no run of two spaces,
  none of the characters line feed, carriage return, backtick, semicolon and tab, and
  no upper-case letter.
\<close>

lemma normalize_ddl_text_clean:
  "\<not> contains (normalize_ddl_text t) ''  ''
   \<and> LF \<notin> set (normalize_ddl_text t) \<and> CR \<notin> set (normalize_ddl_text t)
   \<and> CHR 0x60 \<notin> set (normalize_ddl_text t) \<and> CHR '';'' \<notin> set (normalize_ddl_text t)
   \<and> TAB \<notin> set (normalize_ddl_text t)
   \<and> lower (normalize_ddl_text t) = normalize_ddl_text t"
proof -
  let ?a = "replace t [LF] '' ''"
  let ?b = "replace ?a [CR] []"
  let ?c = "replace ?b [CHR 0x60] []"
  let ?d = "replace ?c '';'' []"
  let ?e = "replace ?d [TAB] '' ''"
  let ?f = "replace ?e '' )'' '')''"
  have keep: "x \<notin> set u \<Longrightarrow> x \<notin> set new \<Longrightarrow> x \<notin> set (replace u old new)"
    for x u old new using replace_set[of u old new] by auto
  have a: "LF \<notin> set ?a" by (rule replace_char_gone) simp
  have b: "LF \<notin> set ?b" "CR \<notin> set ?b"
    by (rule keep[OF a], simp, rule replace_char_gone, simp)
  have c: "LF \<notin> set ?c" "CR \<notin> set ?c" "CHR 0x60 \<notin> set ?c"
    by (rule keep[OF b(1)], simp, rule keep[OF b(2)], simp, rule replace_char_gone, simp)
  have d: "LF \<notin> set ?d" "CR \<notin> set ?d" "CHR 0x60 \<notin> set ?d" "CHR '';'' \<notin> set ?d"
    by (rule keep[OF c(1)], simp, rule keep[OF c(2)], simp, rule keep[OF c(3)], simp,
        rule replace_char_gone, simp)
  have e: "LF \<notin> set ?e" "CR \<notin> set ?e" "CHR 0x60 \<notin> set ?e" "CHR '';'' \<notin> set ?e"
    "TAB \<notin> set ?e"
    by (rule keep[OF d(1)], simp, rule keep[OF d(2)], simp, rule keep[OF d(3)], simp,
        rule keep[OF d(4)], simp, rule replace_char_gone, simp)
  have f: "LF \<notin> set ?f" "CR \<notin> set ?f" "CHR 0x60 \<notin> set ?f" "CHR '';'' \<notin> set ?f"
    "TAB \<notin> set ?f"
    by (rule keep[OF e(1)], simp, rule keep[OF e(2)], simp, rule keep[OF e(3)], simp,
        rule keep[OF e(4)], simp, rule keep[OF e(5)], simp)
  have g: "LF \<notin> set (lower ?f)" "CR \<notin> set (lower ?f)" "CHR 0x60 \<notin> set (lower ?f)"
    "CHR '';'' \<notin> set (lower ?f)" "TAB \<notin> set (lower ?f)"
    by (rule lower_keeps_absent[OF _ f(1)], simp, rule lower_keeps_absent[OF _ f(2)], simp,
        rule lower_keeps_absent[OF _ f(3)], simp, rule lower_keeps_absent[OF _ f(4)], simp,
        rule lower_keeps_absent[OF _ f(5)], simp)
  have n: "normalize_ddl_text t = collapse_spaces (lower ?f)" by (simp add: normalize_ddl_text_def)
  have sub: "set (normalize_ddl_text t) \<subseteq> set (lower ?f) \<union> {CHR '' '', CHR '',''}"
    unfolding n by (rule collapse_spaces_set)
  have up: "\<forall>x\<in>set (normalize_ddl_text t). \<not> is_upper x"
  proof
    fix x assume "x \<in> set (normalize_ddl_text t)"
    with sub have "x \<in> set (lower ?f) \<or> x = CHR '' '' \<or> x = CHR '',''" by auto
    then show "\<not> is_upper x"
      using lower_char_not_upper by (auto simp: lower_def is_upper_def Let_def)
  qed
  then have low: "lower (normalize_ddl_text t) = normalize_ddl_text t"
    by (simp add: lower_def lower_char_def map_idI)
  have nd: "\<not> contains (normalize_ddl_text t) ''  ''" unfolding n by (rule collapse_spaces_no_double)
  from g sub have "LF \<notin> set (normalize_ddl_text t)" "CR \<notin> set (normalize_ddl_text t)"
    "CHR 0x60 \<notin> set (normalize_ddl_text t)" "CHR '';'' \<notin> set (normalize_ddl_text t)"
    "TAB \<notin> set (normalize_ddl_text t)" by auto
  with nd low show ?thesis by simp
qed

text \<open>
  Claim C4. The normalized text is meant to have no space before a comma or a closing
  parenthesis. The source removes \<^verbatim>\<open>' )'\<close> once, before the runs of spaces are collapsed,
  and removes \<^verbatim>\<open>' ,'\<close> only inside the loop that runs while a double space is left. On
  the DDL below (no comment, no double space before the comma, two spaces before the
  closing parenthesis) the normalized text keeps a space before the comma and a space
  before the closing parenthesis.
\<close>

theorem normalize_ddl_text_keeps_space_before_comma:
  "normalize_ddl_text (strip_comments ''create table t (a int ,b int  )'')
     = ''create table t (a int ,b int )''"
  by code_simp

section \<open>Properties of the change detector\<close>

lemma return_true_or_first_change:
  "return_true_or r (first_change rest) = first_change (r # rest)"
  by (cases r) (simp_all add: return_true_or_def)

lemma first_change_False_iff:
  "first_change cs = Inr False \<longleftrightarrow> (\<forall>c\<in>set cs. c = Inr False)"
  by (induction cs rule: first_change.induct) auto

lemma first_change_True:
  "k < length cs \<Longrightarrow> cs ! k = Inr True \<Longrightarrow> (\<forall>j<k. cs ! j = Inr False)
     \<Longrightarrow> first_change cs = Inr True"
proof (induction cs arbitrary: k rule: first_change.induct)
  case 1
  then show ?case by simp
next
  case (2 e rest)
  then show ?case by (cases k) auto
next
  case (3 b rest)
  show ?case
  proof (cases k)
    case 0
    with 3 show ?thesis by simp
  next
    case (Suc k')
    with "3.prems" have "b = False" by auto
    moreover have "first_change rest = Inr True"
    proof (rule "3.IH"[where k = k'])
      show "\<not> b" using \<open>b = False\<close> by simp
      show "k' < length rest" using "3.prems" Suc by simp
      show "rest ! k' = Inr True" using "3.prems" Suc by simp
      show "\<forall>j<k'. rest ! j = Inr False" using "3.prems"(3) Suc by auto
    qed
    ultimately show ?thesis by simp
  qed
qed

lemma segmentize_returns:
  "2 \<le> length cl \<Longrightarrow> \<exists>segs. segmentize_ddl_by_clause t cl = Inr segs"
  by (simp add: segmentize_ddl_by_clause_def Let_def)

lemma structure_changed_first_change:
  assumes "split_ddl_columns_segment ddl_text = Inr (cols, other)"
    and "segmentize_ddl_by_clause (strip other) (index_ddl_clauses (strip other) ddl_clauses_list)
           = Inr segs"
  shows "has_table_structure_changed json_loads deep_diff ddl_text m
         = first_change (comparator_results json_loads deep_diff m cols segs)"
proof -
  have chain: "return_true_or c2 (return_true_or c3 (return_true_or c4 (return_true_or c5
                 (return_true_or c6 (return_true_or c7 (return_true_or c8 (Inr False)))))))
               = first_change [c2, c3, c4, c5, c6, c7, c8]" for c2 c3 c4 c5 c6 c7 c8
    by (simp add: return_true_or_first_change[symmetric])
  have "has_table_structure_changed json_loads deep_diff ddl_text m
        = (if have_columns_changed m cols then Inr True
           else first_change
             [has_table_comment_changed m segs,
              has_partitioning_changed m segs,
              has_clustering_changed m segs,
              has_row_format_changed json_loads deep_diff m segs,
              has_file_format_changed m segs,
              has_table_location_changed m segs,
              have_tblproperties_changed json_loads deep_diff m segs])"
    unfolding has_table_structure_changed_def Let_def
    by (simp add: assms chain)
  then show ?thesis by (simp add: comparator_results_def)
qed

text \<open>
  Claim C1. Once the column list is split off, the verdict of
  \<^verbatim>\<open>has_table_structure_changed\<close> is \<open>first_change\<close> of the eight comparator results in the
  order columns, table comment, partitioning, clustering, row format, file format,
  location, tblproperties. So it is \<open>True\<close> as soon as one comparator reports a change
  while the earlier ones reported none, whatever the later ones would return or raise,
  and it is \<open>False\<close> exactly when all eight report no change.
\<close>

theorem has_table_structure_changed_short_circuit:
  assumes "split_ddl_columns_segment ddl_text = Inr (cols, other)"
  shows "\<exists>segs. segmentize_ddl_by_clause (strip other)
                  (index_ddl_clauses (strip other) ddl_clauses_list) = Inr segs
     \<and> (let cs = comparator_results json_loads deep_diff m cols segs;
             verdict = has_table_structure_changed json_loads deep_diff ddl_text m
         in verdict = first_change cs
            \<and> (verdict = Inr False \<longleftrightarrow> (\<forall>c\<in>set cs. c = Inr False))
            \<and> (\<forall>k<length cs. cs ! k = Inr True \<and> (\<forall>j<k. cs ! j = Inr False)
                   \<longrightarrow> verdict = Inr True))"
proof -
  have "2 \<le> length (index_ddl_clauses (strip other) ddl_clauses_list)"
    by (simp add: index_ddl_clauses_def ddl_clauses_list_def)
  from segmentize_returns[OF this] obtain segs where
    segs: "segmentize_ddl_by_clause (strip other)
             (index_ddl_clauses (strip other) ddl_clauses_list) = Inr segs" by blast
  let ?cs = "comparator_results json_loads deep_diff m cols segs"
  have v: "has_table_structure_changed json_loads deep_diff ddl_text m = first_change ?cs"
    using assms segs by (rule structure_changed_first_change)
  have f: "first_change ?cs = Inr False \<longleftrightarrow> (\<forall>c\<in>set ?cs. c = Inr False)"
    by (rule first_change_False_iff)
  have t: "\<forall>k<length ?cs. ?cs ! k = Inr True \<and> (\<forall>j<k. ?cs ! j = Inr False)
             \<longrightarrow> first_change ?cs = Inr True"
    using first_change_True by blast
  from segs v f t show ?thesis unfolding Let_def by metis
qed

theorem has_table_structure_changed_short_circuit_witness:
  "split_ddl_columns_segment
     ''create external table t (id int, name string) partitioned by (dt string) stored as parquet''
     = Inr (''id int, name string'', '' partitioned by (dt string) stored as parquet'')
   \<and> comparator_results no_json_loads no_deep_diff example_metadata ''id int, name string''
         [''partitioned by (dt string)'', ''stored as parquet'']
       = [Inr False, Inr False, Inr True, Inr False, Inr False, Inr True,
          Inl (PyException location_missing_msg), Inr False]
   \<and> has_table_structure_changed no_json_loads no_deep_diff
         ''create external table t (id int, name string) partitioned by (dt string) stored as parquet''
         example_metadata
       = Inr True"
proof -
  let ?d = "''create external table t (id int, name string) partitioned by (dt string) stored as parquet''"
  let ?segs = "[''partitioned by (dt string)'', ''stored as parquet'']"
  let ?cs = "comparator_results no_json_loads no_deep_diff example_metadata ''id int, name string'' ?segs"
  have sp: "split_ddl_columns_segment ?d
            = Inr (''id int, name string'', '' partitioned by (dt string) stored as parquet'')"
    by code_simp
  have sg: "segmentize_ddl_by_clause (strip '' partitioned by (dt string) stored as parquet'')
              (index_ddl_clauses (strip '' partitioned by (dt string) stored as parquet'')
                 ddl_clauses_list) = Inr ?segs"
    by code_simp
  have cs: "?cs = [Inr False, Inr False, Inr True, Inr False, Inr False, Inr True,
                   Inl (PyException location_missing_msg), Inr False]"
    by code_simp
  have k: "2 < length ?cs \<and> ?cs ! 2 = Inr True \<and> (\<forall>j<2. ?cs ! j = Inr False)"
    unfolding cs by (simp add: less_Suc_eq numeral_2_eq_2)
  from has_table_structure_changed_short_circuit[OF sp, of no_json_loads no_deep_diff example_metadata]
  have "\<forall>k<length ?cs. ?cs ! k = Inr True \<and> (\<forall>j<k. ?cs ! j = Inr False)
          \<longrightarrow> has_table_structure_changed no_json_loads no_deep_diff ?d example_metadata = Inr True"
    unfolding sg Let_def by blast
  with k have "has_table_structure_changed no_json_loads no_deep_diff ?d example_metadata = Inr True"
    by blast
  with sp cs show ?thesis by simp
qed

text \<open>
  Claim C2. When no segment of the DDL is a ROW FORMAT segment, the serialization
  library of the metadata starts with \<^verbatim>\<open>org.apache.\<close> and its serde parameters hold none
  of the delimiter parameters (as when they hold \<^verbatim>\<open>serialization.format = 1\<close> alone),
  \<^verbatim>\<open>has_row_format_changed\<close> returns \<open>False\<close>.
\<close>

theorem has_row_format_changed_default_serde:
  assumes "List.find (\<lambda>segment. startswith segment ''row format '') ddl_segments = None"
    and "startswith (SerializationLibrary (SerdeInfo (StorageDescriptor m))) ''org.apache.''"
    and "\<forall>k\<in>set delimiter_keys. map_of (SerdeParameters (SerdeInfo (StorageDescriptor m))) k = None"
  shows "has_row_format_changed json_loads deep_diff m ddl_segments = Inr False"
  using assms
  by (simp add: has_row_format_changed_def has_row_format_serde_changed_def
        have_row_format_delimiters_changed_def get_meta_row_format_delimiters_def
        return_true_or_def delimiter_keys_def Let_def)

theorem has_row_format_changed_default_serde_witness:
  "List.find (\<lambda>segment. startswith segment ''row format '')
     [''stored as parquet'', ''location 's3://b/t'' @ [SQ]] = None
   \<and> startswith (SerializationLibrary (SerdeInfo (StorageDescriptor example_metadata))) ''org.apache.''
   \<and> SerdeParameters (SerdeInfo (StorageDescriptor example_metadata)) = [(''serialization.format'', ''1'')]
   \<and> has_row_format_changed no_json_loads no_deep_diff example_metadata
         [''stored as parquet'', ''location 's3://b/t'' @ [SQ]] = Inr False"
proof -
  have h1: "List.find (\<lambda>segment. startswith segment ''row format '')
     [''stored as parquet'', ''location 's3://b/t'' @ [SQ]] = None" by simp
  have h2: "startswith (SerializationLibrary (SerdeInfo (StorageDescriptor example_metadata))) ''org.apache.''"
    by (simp add: example_metadata_def)
  have p: "SerdeParameters (SerdeInfo (StorageDescriptor example_metadata)) = [(''serialization.format'', ''1'')]"
    by (simp add: example_metadata_def)
  have h3: "\<forall>k\<in>set delimiter_keys.
              map_of (SerdeParameters (SerdeInfo (StorageDescriptor example_metadata))) k = None"
    unfolding p by (simp add: delimiter_keys_def)
  from has_row_format_changed_default_serde[OF h1 h2 h3, of no_json_loads no_deep_diff] h1 h2 p
  show ?thesis by simp
qed

text \<open>
  Claim C9, as stated, fails: the location comparator is the seventh of eight, and a
  change reported by an earlier comparator ends the comparison with the verdict \<open>True\<close>
  although the DDL has no LOCATION clause.
\<close>

theorem changed_column_without_location_counterexample:
  "split_ddl_columns_segment ''create external table t (id int) stored as parquet''
     = Inr (''id int'', '' stored as parquet'')
   \<and> segmentize_ddl_by_clause (strip '' stored as parquet'')
         (index_ddl_clauses (strip '' stored as parquet'') ddl_clauses_list)
       = Inr [''stored as parquet'']
   \<and> List.find (\<lambda>segment. startswith segment ''location'') [''stored as parquet''] = None
   \<and> has_table_structure_changed no_json_loads no_deep_diff
         ''create external table t (id int) stored as parquet'' example_metadata = Inr True"
  by code_simp

text \<open>
  Claim C9, amended. For a DDL whose segments hold no location segment,
  \<^verbatim>\<open>has_table_location_changed\<close> raises for every metadata, and the comparison never
  returns the verdict \<open>False\<close>: it raises the missing-LOCATION exception when the six
  earlier comparators report no change, and otherwise ends with the change or the
  exception of an earlier comparator. In one equation, the verdict is \<open>first_change\<close> of the
  six earlier results followed by the missing-LOCATION exception.
\<close>

theorem missing_location_never_unchanged:
  assumes "split_ddl_columns_segment ddl_text = Inr (cols, other)"
    and "segmentize_ddl_by_clause (strip other)
           (index_ddl_clauses (strip other) ddl_clauses_list) = Inr segs"
    and "List.find (\<lambda>segment. startswith segment ''location'') segs = None"
  shows "has_table_location_changed m segs = Inl (PyException location_missing_msg)
     \<and> has_table_structure_changed json_loads deep_diff ddl_text m \<noteq> Inr False
     \<and> ((\<forall>c\<in>set (take 6 (comparator_results json_loads deep_diff m cols segs)). c = Inr False)
          \<longrightarrow> has_table_structure_changed json_loads deep_diff ddl_text m
                = Inl (PyException location_missing_msg))
     \<and> has_table_structure_changed json_loads deep_diff ddl_text m
         = first_change (take 6 (comparator_results json_loads deep_diff m cols segs)
                         @ [Inl (PyException location_missing_msg)])"
proof -
  let ?cs = "comparator_results json_loads deep_diff m cols segs"
  have loc: "has_table_location_changed m segs = Inl (PyException location_missing_msg)"
    using assms(3) by (simp add: has_table_location_changed_def)
  have v: "has_table_structure_changed json_loads deep_diff ddl_text m = first_change ?cs"
    using assms(1,2) by (rule structure_changed_first_change)
  have "has_table_location_changed m segs \<in> set ?cs" by (simp add: comparator_results_def)
  with loc have "\<not> (\<forall>c\<in>set ?cs. c = Inr False)" by auto
  then have nf: "first_change ?cs \<noteq> Inr False"
    using first_change_False_iff[of ?cs] by blast
  have six: "(\<forall>c\<in>set (take 6 ?cs). c = Inr False)
              \<longrightarrow> first_change ?cs = Inl (PyException location_missing_msg)"
    by (simp add: comparator_results_def loc)
  have cut: "first_change (xs @ Inl e # rest) = first_change (xs @ [Inl e])" for xs e rest
    by (induction xs rule: first_change.induct) simp_all
  have "?cs = take 6 ?cs @ Inl (PyException location_missing_msg)
                # [have_tblproperties_changed json_loads deep_diff m segs]"
    by (simp add: comparator_results_def loc)
  then have "first_change ?cs
             = first_change (take 6 ?cs @ Inl (PyException location_missing_msg)
                 # [have_tblproperties_changed json_loads deep_diff m segs])"
    by simp
  also have "\<dots> = first_change (take 6 ?cs @ [Inl (PyException location_missing_msg)])"
    by (rule cut)
  finally have upto: "first_change ?cs
             = first_change (take 6 ?cs @ [Inl (PyException location_missing_msg)])" .
  from loc v nf six upto show ?thesis by simp
qed

theorem missing_location_never_unchanged_witness:
  "split_ddl_columns_segment
     ''create external table t (id int, name string) stored as inputformat 'org.example.myinputformat' outputformat 'org.example.myoutputformat' ''
     = Inr (''id int, name string'',
            '' stored as inputformat 'org.example.myinputformat' outputformat 'org.example.myoutputformat' '')
   \<and> List.find (\<lambda>segment. startswith segment ''location'')
        [''stored as inputformat 'org.example.myinputformat' outputformat 'org.example.myoutputformat'' @ [SQ]]
       = None
   \<and> has_table_structure_changed no_json_loads no_deep_diff
         ''create external table t (id int, name string) stored as inputformat 'org.example.myinputformat' outputformat 'org.example.myoutputformat' ''
         example_metadata
       = Inl (PyException location_missing_msg)"
proof -
  let ?d = "''create external table t (id int, name string) stored as inputformat 'org.example.myinputformat' outputformat 'org.example.myoutputformat' ''"
  let ?o = "'' stored as inputformat 'org.example.myinputformat' outputformat 'org.example.myoutputformat' ''"
  let ?segs = "[''stored as inputformat 'org.example.myinputformat' outputformat 'org.example.myoutputformat'' @ [SQ]]"
  have sp: "split_ddl_columns_segment ?d = Inr (''id int, name string'', ?o)" by code_simp
  have sg: "segmentize_ddl_by_clause (strip ?o) (index_ddl_clauses (strip ?o) ddl_clauses_list)
            = Inr ?segs" by code_simp
  have nl: "List.find (\<lambda>segment. startswith segment ''location'') ?segs = None" by simp
  have six: "\<forall>c\<in>set (take 6 (comparator_results no_json_loads no_deep_diff example_metadata
                                    ''id int, name string'' ?segs)). c = Inr False"
    by code_simp
  from missing_location_never_unchanged[OF sp sg nl, of example_metadata no_json_loads no_deep_diff] six
  have "has_table_structure_changed no_json_loads no_deep_diff ?d example_metadata
        = Inl (PyException location_missing_msg)" by blast
  with sp nl show ?thesis by simp
qed

text \<open>
  Claim C10. When the STORED AS segment has the form \<^verbatim>\<open>inputformat '...'\<close> with no
  \<^verbatim>\<open>outputformat\<close> and the input format given equals the one of the metadata,
  \<^verbatim>\<open>has_file_format_changed\<close> raises \<^verbatim>\<open>UnboundLocalError\<close>. The witness is such a segment,
  and a whole DDL on which \<^verbatim>\<open>has_table_structure_changed\<close> raises it.
\<close>

theorem has_file_format_changed_unbound_local:
  assumes "List.find (\<lambda>segment. startswith segment ''stored as'') ddl_segments = Some segment"
    and "startswith (replace segment ''stored as '' []) ''inputformat''"
    and "py_find (replace segment ''stored as '' []) ''outputformat'' < 0"
    and "py_split (replace segment ''stored as '' []) '' '' = [k, v]"
    and "strip_chars [SQ] v = lower (InputFormat (StorageDescriptor m))"
  shows "has_file_format_changed m ddl_segments = Inl UnboundLocalError"
proof -
  let ?ff = "replace segment ''stored as '' []"
  from assms(2) have "?ff \<noteq> ''textfile''" "?ff \<noteq> ''parquet''" "?ff \<noteq> ''sequencefile''"
    "?ff \<noteq> ''rcfile''" "?ff \<noteq> ''orc''" "?ff \<noteq> ''avro''"
    by auto
  with assms show ?thesis
    by (simp add: has_file_format_changed_def Let_def)
qed

theorem has_file_format_changed_unbound_local_witness:
  "has_file_format_changed example_metadata
     [''stored as inputformat 'org.example.myinputformat'' @ [SQ], ''location 's3://b/t'' @ [SQ]]
     = Inl UnboundLocalError
   \<and> has_table_structure_changed no_json_loads no_deep_diff
         ''create external table t (id int, name string) stored as inputformat 'org.example.myinputformat' location 's3://b/t' ''
         example_metadata
       = Inl UnboundLocalError"
proof -
  let ?seg = "''stored as inputformat 'org.example.myinputformat'' @ [SQ]"
  let ?segs = "[?seg, ''location 's3://b/t'' @ [SQ]]"
  have h1: "List.find (\<lambda>segment. startswith segment ''stored as'') ?segs = Some ?seg" by simp
  have r: "replace ?seg ''stored as '' [] = ''inputformat 'org.example.myinputformat'' @ [SQ]"
    by code_simp
  have h2: "startswith (replace ?seg ''stored as '' []) ''inputformat''" unfolding r by simp
  have h3: "py_find (replace ?seg ''stored as '' []) ''outputformat'' < 0" unfolding r by code_simp
  have h4: "py_split (replace ?seg ''stored as '' []) '' ''
            = [''inputformat'', [SQ] @ ''org.example.myinputformat'' @ [SQ]]"
    unfolding r by code_simp
  have h5: "strip_chars [SQ] ([SQ] @ ''org.example.myinputformat'' @ [SQ])
            = lower (InputFormat (StorageDescriptor example_metadata))"
    by code_simp
  have whole: "has_table_structure_changed no_json_loads no_deep_diff
         ''create external table t (id int, name string) stored as inputformat 'org.example.myinputformat' location 's3://b/t' ''
         example_metadata = Inl UnboundLocalError"
    by code_simp
  from has_file_format_changed_unbound_local[OF h1 h2 h3 h4 h5] whole show ?thesis by simp
qed

end
